theory Spec2Isabelle
  imports Complex_Main "HOL-Library.Word" "HOL-Library.Multiset" "HOL-Library.Product_Lexorder"
begin

unbundle bit_operations_syntax


section \<open>Go integers\<close>

text \<open>
  Go's \<^verbatim>\<open>int\<close> is a 64-bit two's-complement integer on the platforms the server is
  built for. It is modelled as \<open>int\<close> with the wrap-around written out.
\<close>

datatype panic = DivideByZero | IndexOutOfRange

definition wrap_int :: "int \<Rightarrow> int" where
  "wrap_int v = (v + 2 ^ 63) mod 2 ^ 64 - 2 ^ 63"

definition go_add :: "int \<Rightarrow> int \<Rightarrow> int" where
  "go_add a b = wrap_int (a + b)"

definition go_sub :: "int \<Rightarrow> int \<Rightarrow> int" where
  "go_sub a b = wrap_int (a - b)"

definition go_mul :: "int \<Rightarrow> int \<Rightarrow> int" where
  "go_mul a b = wrap_int (a * b)"

text \<open>Integer division truncates towards zero and panics on a zero divisor.\<close>

definition go_div :: "int \<Rightarrow> int \<Rightarrow> panic + int" where
  "go_div a b =
     (if b = 0 then Inl DivideByZero
      else Inr (wrap_int (sgn a * sgn b * (\<bar>a\<bar> div \<bar>b\<bar>))))"

text \<open>
  \<^verbatim>\<open>1 << s\<close> at type \<^verbatim>\<open>int\<close> with an unsigned shift count: bit 63 is the sign
  bit and larger counts shift the bit out.
\<close>

definition go_shl1 :: "nat \<Rightarrow> int" where
  "go_shl1 s = wrap_int (2 ^ s)"

text \<open>\<^verbatim>\<open>x - 1\<close> at type \<^verbatim>\<open>uint\<close> (64 bits): wraps at zero.\<close>

definition uint_pred :: "nat \<Rightarrow> nat" where
  "uint_pred v = (v + (2 ^ 64 - 1)) mod 2 ^ 64"

text \<open>\<^verbatim>\<open>Min\<close> and \<^verbatim>\<open>Max\<close> of territoryServer.go.\<close>

definition Min_int :: "int \<Rightarrow> int \<Rightarrow> int" where
  "Min_int x y = (if x < y then x else y)"

definition Max_int :: "int \<Rightarrow> int \<Rightarrow> int" where
  "Max_int x y = (if x > y then x else y)"

section \<open>Top-N selection (tribeCount.go)\<close>

record TribeCount =
  tribeID :: "64 word"
  count' :: "32 word"

text \<open>
  \<^verbatim>\<open>TribeCountHeap.Less\<close>, on the two elements the indices select.
\<close>

definition Less :: "TribeCount \<Rightarrow> TribeCount \<Rightarrow> bool" where
  "Less a b =
     (if count' a < count' b then True
      else if count' a = count' b then tribeID a < tribeID b
      else False)"

definition Swap :: "'a list \<Rightarrow> nat \<Rightarrow> nat \<Rightarrow> 'a list" where
  "Swap h i j = h[i := h ! j, j := h ! i]"

text \<open>
  \<^verbatim>\<open>down\<close> and \<^verbatim>\<open>Init\<close> of Go's \<^verbatim>\<open>container/heap\<close>, over \<^verbatim>\<open>TribeCountHeap\<close>.
  \<^verbatim>\<open>
  func down(h Interface, i0, n int) bool {
      i := i0
      for {
          j1 := 2*i + 1
          if j1 >= n || j1 < 0 { break }
          j := j1
          if j2 := j1 + 1; j2 < n && h.Less(j2, j1) { j = j2 }
          if !h.Less(j, i) { break }
          h.Swap(i, j)
          i = j
      }
      return i > i0
  }
  func Init(h Interface) {
      n := h.Len()
      for i := n/2 - 1; i >= 0; i-- { down(h, i, n) }
  }
  \<close>
  Only the heap is returned: no caller here reads \<^verbatim>\<open>down\<close>'s result. \<open>child\<close> is
  the index \<^verbatim>\<open>j\<close> that one round of the loop selects.
\<close>

definition child :: "TribeCount list \<Rightarrow> nat \<Rightarrow> nat \<Rightarrow> nat" where
  "child h i n =
     (if 2 * i + 2 < n \<and> Less (h ! (2 * i + 2)) (h ! (2 * i + 1))
      then 2 * i + 2 else 2 * i + 1)"

function down :: "TribeCount list \<Rightarrow> nat \<Rightarrow> nat \<Rightarrow> TribeCount list" where
  "down h i n =
     (if 2 * i + 1 \<ge> n then h
      else if \<not> Less (h ! child h i n) (h ! i) then h
      else down (Swap h i (child h i n)) (child h i n) n)"
  by pat_completeness auto
termination
  by (relation "measure (\<lambda>(h, i, n). n - i)") (auto simp: child_def)

declare down.simps [simp del]

definition heap_Init :: "TribeCount list \<Rightarrow> TribeCount list" where
  "heap_Init h =
     (let n = length h
      in foldl (\<lambda>h i. down h i n) h (rev [0..<n div 2]))"

text \<open>
  \<^verbatim>\<open>sort.SliceStable(x, less)\<close> sorts \<^verbatim>\<open>x\<close> by \<^verbatim>\<open>less\<close> and keeps elements that
  \<^verbatim>\<open>less\<close> does not order in their original order. It is modelled by the stable
  insertion sort: an element is placed before the first one that is not less than it.
\<close>

fun stable_insert :: "('a \<Rightarrow> 'a \<Rightarrow> bool) \<Rightarrow> 'a \<Rightarrow> 'a list \<Rightarrow> 'a list" where
  "stable_insert lt x [] = [x]"
| "stable_insert lt x (y # ys) =
     (if lt y x then y # stable_insert lt x ys else x # y # ys)"

definition SliceStable :: "('a \<Rightarrow> 'a \<Rightarrow> bool) \<Rightarrow> 'a list \<Rightarrow> 'a list" where
  "SliceStable lt xs = foldr (stable_insert lt) xs []"

text \<open>The comparison closure passed to \<^verbatim>\<open>sort.SliceStable\<close> in \<^verbatim>\<open>TopNTribes\<close>.\<close>

definition sort_less :: "TribeCount \<Rightarrow> TribeCount \<Rightarrow> bool" where
  "sort_less a b =
     (if count' a < count' b then False
      else if count' a = count' b then tribeID a > tribeID b
      else True)"

text \<open>
  A Go map is a finite partial function. \<^verbatim>\<open>range\<close> visits every key once, in an
  order the language leaves unspecified: the order is a parameter, a list \<open>ks\<close> of the
  keys, and \<open>iteration_order\<close> says that it enumerates the map.
\<close>

definition iteration_order :: "('k \<rightharpoonup> 'v) \<Rightarrow> 'k list \<Rightarrow> bool" where
  "iteration_order m ks \<longleftrightarrow> distinct ks \<and> set ks = dom m"

definition range_values :: "('k \<rightharpoonup> 'v) \<Rightarrow> 'k list \<Rightarrow> 'v list" where
  "range_values m ks = List.map_filter m ks"

text \<open>
  \<^verbatim>\<open>TopNTribes\<close> of tribeCount.go. The entries of \<^verbatim>\<open>counts\<close> are pointers; they are
  taken to be non-nil, as a map built by counting markers has them.
\<close>

definition TopNTribes :: "int \<Rightarrow> (64 word \<rightharpoonup> TribeCount) \<Rightarrow> 64 word list \<Rightarrow> 64 word list" where
  "TopNTribes n counts ks =
     (let pq = range_values counts ks;
          pq = heap_Init pq;
          pq = SliceStable sort_less pq;
          totalCount = int (length pq)
      in map (\<lambda>i. tribeID (pq ! i)) [0..<nat (Min_int n totalCount)])"

text \<open>
  The variant of \<^verbatim>\<open>TopNTribes\<close> that follows territoryServer.go keeps a heap of at
  most \<^verbatim>\<open>n\<close> entries, with \<^verbatim>\<open>up\<close>, \<^verbatim>\<open>Push\<close> and \<^verbatim>\<open>Pop\<close> of \<^verbatim>\<open>container/heap\<close>:
  \<^verbatim>\<open>
  func up(h Interface, j int) {
      for {
          i := (j - 1) / 2 // parent
          if i == j || !h.Less(j, i) { break }
          h.Swap(i, j)
          j = i
      }
  }
  func Push(h Interface, x any) { h.Push(x); up(h, h.Len()-1) }
  func Pop(h Interface) any {
      n := h.Len() - 1
      h.Swap(0, n)
      down(h, 0, n)
      return h.Pop()
  }
  \<close>
  \<^verbatim>\<open>(j - 1) / 2\<close> truncates towards zero, so the parent of index 0 is 0.
\<close>

function up :: "TribeCount list \<Rightarrow> nat \<Rightarrow> TribeCount list" where
  "up h j =
     (if j = 0 \<or> \<not> Less (h ! j) (h ! ((j - 1) div 2)) then h
      else up (Swap h ((j - 1) div 2) j) ((j - 1) div 2))"
  by pat_completeness auto
termination
  by (relation "measure (\<lambda>(h, j). j)") auto

declare up.simps [simp del]

definition heap_Push :: "TribeCount list \<Rightarrow> TribeCount \<Rightarrow> TribeCount list" where
  "heap_Push h v = up (h @ [v]) (length h)"

definition heap_Pop :: "TribeCount list \<Rightarrow> panic + TribeCount list" where
  "heap_Pop h =
     (if h = [] then Inl IndexOutOfRange
      else Inr (butlast (down (Swap h 0 (length h - 1)) 0 (length h - 1))))"

fun TopN_loop :: "int \<Rightarrow> TribeCount list \<Rightarrow> TribeCount list \<Rightarrow> int \<Rightarrow> panic + TribeCount list \<times> int" where
  "TopN_loop n [] pq i = Inr (pq, i)"
| "TopN_loop n (v # vs) pq i =
     (if i < n then TopN_loop n vs (pq @ [v]) (i + 1)
      else let pq = heap_Push (if i = n then heap_Init pq else pq) v
           in if int (length pq) > n
              then (case heap_Pop pq of
                      Inl e \<Rightarrow> Inl e
                    | Inr pq \<Rightarrow> TopN_loop n vs pq (i + 1))
              else TopN_loop n vs pq (i + 1))"

definition TopNTribes_heap :: "int \<Rightarrow> (64 word \<rightharpoonup> TribeCount) \<Rightarrow> 64 word list \<Rightarrow> panic + 64 word list" where
  "TopNTribes_heap n counts ks =
     (case TopN_loop n (range_values counts ks) [] 0 of
        Inl e \<Rightarrow> Inl e
      | Inr (pq, i) \<Rightarrow>
          let pq = (if i \<le> n then heap_Init pq else pq)
          in Inr (map (\<lambda>i. tribeID (pq ! i))
                    (rev [0..<nat (Min_int n (int (length pq)))])))"

section \<open>Owner classification and colour (territoryServer.go)\<close>

text \<open>
  \<^verbatim>\<open>color.NRGBA{R, G, B, A}\<close> of the Go standard library: four bytes.
\<close>

datatype NRGBA = NRGBA "8 word" "8 word" "8 word" "8 word"

text \<open>The palette \<^verbatim>\<open>colors\<close>: the four entries that are not commented out.\<close>

definition colors :: "string list" where
  "colors = [''yellow'', ''blue'', ''purple'', ''coral'']"

text \<open>
  The table \<^verbatim>\<open>colorValues\<close>. Reading a Go map at a missing key gives the zero
  value of the element type.
\<close>

definition colorValues_table :: "(string \<times> NRGBA) list" where
  "colorValues_table =
     [(''black'', NRGBA 0x00 0x00 0x00 0xff),
      (''gray'', NRGBA 0xa9 0xa9 0xa9 0xff),
      (''yellow'', NRGBA 0xff 0xff 0x00 0xff),
      (''blue'', NRGBA 0x00 0x00 0xff 0xff),
      (''purple'', NRGBA 0x80 0x00 0x80 0xff),
      (''coral'', NRGBA 0xff 0x7f 0x50 0xff)]"

definition colorValues :: "string \<Rightarrow> NRGBA" where
  "colorValues name =
     (case map_of colorValues_table name of
        Some c \<Rightarrow> c
      | None \<Rightarrow> NRGBA 0 0 0 0)"

text \<open>\<^verbatim>\<open>return tribeID > 1000000000+50000\<close>\<close>

definition isTribeID :: "64 word \<Rightarrow> bool" where
  "isTribeID tid \<longleftrightarrow> tid > 1000000000 + 50000"

text \<open>
  \<^verbatim>\<open>idx := int(tribeID % uint64(len(colors)))\<close>; the index is below
  \<^verbatim>\<open>len(colors)\<close>, so the array read cannot go out of range.
\<close>

definition getTribeColor :: "64 word \<Rightarrow> NRGBA" where
  "getTribeColor tid =
     (if tid = 0 then colorValues ''black''
      else if \<not> isTribeID tid then colorValues ''gray''
      else let idx = unat (tid mod word_of_nat (length colors))
           in colorValues (colors ! idx))"

section \<open>Markers, map options and configuration (territoryServer.go)\<close>

text \<open>
  \<^verbatim>\<open>float64\<close> values are modelled as reals: rounding and the special values of
  floating-point arithmetic (an infinity or a NaN from a zero \<^verbatim>\<open>GridSize\<close>) are outside
  the model.
\<close>

record Marker =
  serverX :: int
  serverY :: int
  tribeOrOwnerID :: "64 word"
  relX :: real
  relY :: real
  markerType :: "8 word"
  UnusedExtra1 :: "8 word"
  UnusedExtra2 :: "8 word"
  UnusedExtra :: "8 word"

record ClaimFlagOutputEntry =
  X :: "16 word"
  Y :: "16 word"

record FlagOwnerOutputHeader =
  TribeOrPlayerID :: "64 word"
  LandClaims :: "ClaimFlagOutputEntry list"
  WaterClaims :: "ClaimFlagOutputEntry list"

text \<open>\<^verbatim>\<open>ByTribeOrPlayerID.Less\<close>, on the two elements the indices select.\<close>

definition ByTribeOrPlayerID_Less :: "FlagOwnerOutputHeader \<Rightarrow> FlagOwnerOutputHeader \<Rightarrow> bool" where
  "ByTribeOrPlayerID_Less a b \<longleftrightarrow> TribeOrPlayerID a < TribeOrPlayerID b"

text \<open>
  \<^verbatim>\<open>VirtualBounds\<close>; its fields \<^verbatim>\<open>x\<close>, \<^verbatim>\<open>y\<close>, \<^verbatim>\<open>radius\<close> and \<^verbatim>\<open>marker\<close> carry the
  prefix \<open>vb_\<close>.
\<close>

record VirtualBounds =
  vb_x :: real
  vb_y :: real
  vb_radius :: real
  vb_marker :: Marker

text \<open>\<^verbatim>\<open>quadtree.BoundingBox\<close> and \<^verbatim>\<open>VirtualBounds.BoundingBox\<close>.\<close>

record BoundingBox =
  MinX :: real
  MaxX :: real
  MinY :: real
  MaxY :: real

definition BoundingBox_of :: "VirtualBounds \<Rightarrow> BoundingBox" where
  "BoundingBox_of v =
     \<lparr>MinX = vb_x v - vb_radius v, MaxX = vb_x v + vb_radius v,
      MinY = vb_y v - vb_radius v, MaxY = vb_y v + vb_radius v\<rparr>"

text \<open>
  \<^verbatim>\<open>image.Rectangle\<close>, with \<^verbatim>\<open>Min.X\<close>, \<^verbatim>\<open>Min.Y\<close>, \<^verbatim>\<open>Max.X\<close>, \<^verbatim>\<open>Max.Y\<close> as four
  fields, and \<^verbatim>\<open>image.Rect\<close>, which swaps the coordinates of an axis when the minimum
  it is given is above the maximum.
\<close>

record Rectangle =
  Min_X :: int
  Min_Y :: int
  Max_X :: int
  Max_Y :: int

definition Rect :: "int \<Rightarrow> int \<Rightarrow> int \<Rightarrow> int \<Rightarrow> Rectangle" where
  "Rect x0 y0 x1 y1 =
     \<lparr>Min_X = (if x0 > x1 then x1 else x0), Min_Y = (if y0 > y1 then y1 else y0),
      Max_X = (if x0 > x1 then x0 else x1), Max_Y = (if y0 > y1 then y0 else y1)\<rparr>"

text \<open>
  The file an artifact is written to. \<open>TilePng z tx ty\<close> stands for
  \<^verbatim>\<open>path.Join(tilePath, Itoa(z), Itoa(tx), Itoa(ty)+".png")\<close>, \<open>WorldMap\<close> for
  \<^verbatim>\<open>path.Join(gamePath, "world.map")\<close> and \<open>NoName\<close> for the empty string of a fresh
  \<^verbatim>\<open>MapOptions{}\<close>.
\<close>

datatype filename = NoName | TilePng nat int int | WorldMap

record MapOptions =
  filename :: filename
  actualPixels :: int
  virtualPixels :: int
  virtualClip :: Rectangle

text \<open>
  The fields of \<^verbatim>\<open>Configuration\<close> that the generators read. The global \<^verbatim>\<open>config\<close> is
  written once, by \<^verbatim>\<open>main\<close>, and is a parameter \<open>cfg\<close> here.
\<close>

record Configuration =
  ServersX :: int
  ServersY :: int
  GameSize :: int
  TileSize :: int
  MaxZoom :: nat
  GridSize :: real
  LandRadiusUE :: real
  WaterRadiusUE :: real
  CircleAlpha :: "8 word"

section \<open>Quadtree construction (territoryServer.go)\<close>

text \<open>
  The first lines of \<^verbatim>\<open>createQuadTree\<close>, \<^verbatim>\<open>generateImage\<close> and
  \<^verbatim>\<open>generateCompressedFile\<close>: an integer division, then the conversion to \<^verbatim>\<open>float64\<close>.
\<close>

definition virtualPixelsPerServer :: "Configuration \<Rightarrow> MapOptions \<Rightarrow> panic + real" where
  "virtualPixelsPerServer cfg opts =
     (if ServersX cfg \<ge> ServersY cfg
      then map_sum id real_of_int (go_div (virtualPixels opts) (ServersX cfg))
      else map_sum id real_of_int (go_div (virtualPixels opts) (ServersY cfg)))"

text \<open>
  The quadtree of \<^verbatim>\<open>github.com/GrapeshotGames/goquadtree\<close> is not part of this
  repository. A tree is represented by the entities added to it, in the order of the
  calls of \<^verbatim>\<open>Add\<close>, and \<^verbatim>\<open>Query\<close> is a parameter of the generators.
\<close>

type_synonym QuadTree = "VirtualBounds list"

type_synonym Query = "QuadTree \<Rightarrow> BoundingBox \<Rightarrow> VirtualBounds list"

definition createQuadTree :: "Configuration \<Rightarrow> MapOptions \<Rightarrow> Marker list \<Rightarrow> panic + QuadTree" where
  "createQuadTree cfg opts markers =
     (case virtualPixelsPerServer cfg opts of
        Inl e \<Rightarrow> Inl e
      | Inr vPPS \<Rightarrow>
          let virtualWaterRadius = vPPS * WaterRadiusUE cfg / GridSize cfg
          in Inr (map (\<lambda>marker.
                    let vServerOffsetX = real_of_int (serverX marker) * vPPS;
                        vServerOffsetY = real_of_int (serverY marker) * vPPS;
                        vX = (relX marker * vPPS) + vServerOffsetX;
                        vY = (relY marker * vPPS) + vServerOffsetY
                    in \<lparr>vb_x = vX, vb_y = vY, vb_radius = virtualWaterRadius,
                        vb_marker = marker\<rparr>) markers))"

section \<open>The gutter filter and tile rendering (territoryServer.go)\<close>

text \<open>
  The condition under which the loops of \<^verbatim>\<open>generateImage\<close> and
  \<^verbatim>\<open>generateCompressedFile\<close> \<^verbatim>\<open>continue\<close>:
  \<^verbatim>\<open>
  tX := vb.x - float64(opts.virtualClip.Min.X)
  tY := vb.y - float64(opts.virtualClip.Min.Y)
  if tX < -virtualWaterRadius || tY < -virtualWaterRadius ||
     tX >= float64(opts.virtualClip.Max.X)+virtualWaterRadius ||
     tY >= float64(opts.virtualClip.Max.Y)+virtualWaterRadius { continue }
  \<close>
\<close>

definition clip_tX :: "Rectangle \<Rightarrow> VirtualBounds \<Rightarrow> real" where
  "clip_tX clip vb = vb_x vb - real_of_int (Min_X clip)"

definition clip_tY :: "Rectangle \<Rightarrow> VirtualBounds \<Rightarrow> real" where
  "clip_tY clip vb = vb_y vb - real_of_int (Min_Y clip)"

definition outside_gutter :: "real \<Rightarrow> Rectangle \<Rightarrow> VirtualBounds \<Rightarrow> bool" where
  "outside_gutter virtualWaterRadius clip vb \<longleftrightarrow>
     clip_tX clip vb < - virtualWaterRadius \<or> clip_tY clip vb < - virtualWaterRadius
     \<or> clip_tX clip vb \<ge> real_of_int (Max_X clip) + virtualWaterRadius
     \<or> clip_tY clip vb \<ge> real_of_int (Max_Y clip) + virtualWaterRadius"

text \<open>
  \<^verbatim>\<open>virtualToActual := float64(opts.actualPixels) /
       float64(opts.virtualClip.Max.X-opts.virtualClip.Min.X+1)\<close>
\<close>

definition virtualToActual :: "MapOptions \<Rightarrow> real" where
  "virtualToActual opts =
     real_of_int (actualPixels opts)
       / real_of_int (go_add (go_sub (Max_X (virtualClip opts)) (Min_X (virtualClip opts))) 1)"

definition query_box :: "Rectangle \<Rightarrow> BoundingBox" where
  "query_box clip =
     \<lparr>MinX = real_of_int (Min_X clip), MaxX = real_of_int (Max_X clip),
      MinY = real_of_int (Min_Y clip), MaxY = real_of_int (Max_Y clip)\<rparr>"

text \<open>
  The entities a generator goes on to process: those of the query result for which the
  loop does not \<^verbatim>\<open>continue\<close>, in the order of the result.
\<close>

definition processed :: "real \<Rightarrow> Rectangle \<Rightarrow> VirtualBounds list \<Rightarrow> VirtualBounds list" where
  "processed virtualWaterRadius clip returned =
     filter (\<lambda>vb. \<not> outside_gutter virtualWaterRadius clip vb) returned"

text \<open>
  One filled circle: \<^verbatim>\<open>gc.ArcTo(iX, iY, iRadius, iRadius, 0.0, 2*math.Pi)\<close> and
  \<^verbatim>\<open>gc.Fill()\<close> with the colour of the owner.
\<close>

datatype circle = FillCircle real real real NRGBA

definition render_marker :: "real \<Rightarrow> real \<Rightarrow> real \<Rightarrow> Rectangle \<Rightarrow> VirtualBounds \<Rightarrow> circle" where
  "render_marker virtualLandRadius virtualWaterRadius vToA clip vb =
     (let iX = clip_tX clip vb * vToA;
          iY = clip_tY clip vb * vToA;
          iRadius = (if markerType (vb_marker vb) = 0 then virtualLandRadius * vToA
                     else if markerType (vb_marker vb) = 1 then virtualWaterRadius * vToA
                     else 1);
          iRadius = (if iRadius < 1 then 1 else iRadius)
      in FillCircle iX iY iRadius (getTribeColor (tribeOrOwnerID (vb_marker vb))))"

text \<open>
  \<^verbatim>\<open>generateImage\<close>: the result is the file written, the side of its square raster in
  pixels (\<^verbatim>\<open>image.Rect(0, 0, opts.actualPixels, opts.actualPixels)\<close>) and the circles drawn
  into it, in drawing order. Compositing the mask and encoding the PNG are not modelled;
  the errors of the file operations are ignored by the source.
\<close>

record tile_image =
  image_file :: filename
  image_pixels :: int
  image_circles :: "circle list"

definition generateImage :: "Configuration \<Rightarrow> Query \<Rightarrow> MapOptions \<Rightarrow> QuadTree \<Rightarrow> panic + tile_image" where
  "generateImage cfg Query opts quadTree =
     (case virtualPixelsPerServer cfg opts of
        Inl e \<Rightarrow> Inl e
      | Inr vPPS \<Rightarrow>
          let virtualLandRadius = vPPS * LandRadiusUE cfg / GridSize cfg;
              virtualWaterRadius = vPPS * WaterRadiusUE cfg / GridSize cfg;
              vToA = virtualToActual opts;
              returned = Query quadTree (query_box (virtualClip opts))
          in Inr \<lparr>image_file = filename opts,
                  image_pixels = actualPixels opts,
                  image_circles =
                    map (render_marker virtualLandRadius virtualWaterRadius vToA (virtualClip opts))
                      (processed virtualWaterRadius (virtualClip opts) returned)\<rparr>)"

text \<open>
  \<^verbatim>\<open>generateTiles\<close>, without the wait group: one call of \<^verbatim>\<open>generateImage\<close> per tile,
  \<^verbatim>\<open>tileX\<close> in the outer loop and \<^verbatim>\<open>tileY\<close> in the inner one. \<open>tile_options\<close> is the
  \<^verbatim>\<open>MapOptions\<close> value that the loop body passes on.
\<close>

definition tile_options :: "MapOptions \<Rightarrow> nat \<Rightarrow> int \<Rightarrow> int \<Rightarrow> int \<Rightarrow> MapOptions" where
  "tile_options opts zoomLevel virtualPixelsPerTile tileX tileY =
     (let minX = go_mul tileX virtualPixelsPerTile;
          maxX = go_sub (go_add minX virtualPixelsPerTile) 1;
          minY = go_mul tileY virtualPixelsPerTile;
          maxY = go_sub (go_add minY virtualPixelsPerTile) 1
      in opts\<lparr>virtualClip := Rect minX minY maxX maxY,
               filename := TilePng zoomLevel tileX tileY\<rparr>)"

definition tiles_options :: "Configuration \<Rightarrow> nat \<Rightarrow> panic + MapOptions list" where
  "tiles_options cfg zoomLevel =
     (let opts = \<lparr>filename = NoName, actualPixels = TileSize cfg,
                  virtualPixels = go_mul (TileSize cfg) (go_shl1 (uint_pred (MaxZoom cfg))),
                  virtualClip = \<lparr>Min_X = 0, Min_Y = 0, Max_X = 0, Max_Y = 0\<rparr>\<rparr>;
          tiles = go_shl1 zoomLevel
      in case go_div (virtualPixels opts) tiles of
           Inl e \<Rightarrow> Inl e
         | Inr virtualPixelsPerTile \<Rightarrow>
             Inr (concat (map (\<lambda>tileX.
                    map (\<lambda>tileY. tile_options opts zoomLevel virtualPixelsPerTile
                                   (int tileX) (int tileY))
                      [0..<nat tiles]) [0..<nat tiles])))"

fun sequence_results :: "(panic + 'a) list \<Rightarrow> panic + 'a list" where
  "sequence_results [] = Inr []"
| "sequence_results (r # rs) =
     (case r of
        Inl e \<Rightarrow> Inl e
      | Inr v \<Rightarrow> (case sequence_results rs of Inl e \<Rightarrow> Inl e | Inr vs \<Rightarrow> Inr (v # vs)))"

definition generateTiles :: "Configuration \<Rightarrow> Query \<Rightarrow> nat \<Rightarrow> Marker list \<Rightarrow> panic + tile_image list" where
  "generateTiles cfg Query zoomLevel markers =
     (let opts = \<lparr>filename = NoName, actualPixels = TileSize cfg,
                  virtualPixels = go_mul (TileSize cfg) (go_shl1 (uint_pred (MaxZoom cfg))),
                  virtualClip = \<lparr>Min_X = 0, Min_Y = 0, Max_X = 0, Max_Y = 0\<rparr>\<rparr>
      in case createQuadTree cfg opts markers of
           Inl e \<Rightarrow> Inl e
         | Inr qt \<Rightarrow>
             (case tiles_options cfg zoomLevel of
                Inl e \<Rightarrow> Inl e
              | Inr tile_opts \<Rightarrow>
                  sequence_results (map (\<lambda>opts. generateImage cfg Query opts qt) tile_opts)))"

section \<open>The world snapshot (territoryServer.go)\<close>

text \<open>
  \<^verbatim>\<open>uint16(iX)\<close> for a \<^verbatim>\<open>float64\<close>. The fraction is discarded. Where the value does not
  fit, the Go specification leaves the result to the implementation; the model follows
  the amd64 compiler, which converts to a signed 32-bit integer (a value outside its
  range becomes \<^verbatim>\<open>0x80000000\<close>) and keeps the low 16 bits.
\<close>

definition trunc_toward_zero :: "real \<Rightarrow> int" where
  "trunc_toward_zero v = (if v < 0 then \<lceil>v\<rceil> else \<lfloor>v\<rfloor>)"

definition uint16_of_float :: "real \<Rightarrow> 16 word" where
  "uint16_of_float v =
     (if - (2 ^ 31) - 1 < v \<and> v < 2 ^ 31 then word_of_int (trunc_toward_zero v) else 0)"

text \<open>\<^verbatim>\<open>binary.LittleEndian.PutUint16\<close>, \<^verbatim>\<open>PutUint32\<close> and \<^verbatim>\<open>PutUint64\<close>.\<close>

definition PutUint16 :: "16 word \<Rightarrow> 8 word list" where
  "PutUint16 v = [ucast v, ucast (drop_bit 8 v)]"

definition PutUint32 :: "32 word \<Rightarrow> 8 word list" where
  "PutUint32 v = [ucast v, ucast (drop_bit 8 v), ucast (drop_bit 16 v), ucast (drop_bit 24 v)]"

definition PutUint64 :: "64 word \<Rightarrow> 8 word list" where
  "PutUint64 v =
     [ucast v, ucast (drop_bit 8 v), ucast (drop_bit 16 v), ucast (drop_bit 24 v),
      ucast (drop_bit 32 v), ucast (drop_bit 40 v), ucast (drop_bit 48 v),
      ucast (drop_bit 56 v)]"

text \<open>
  One round of the loop over the query result in \<^verbatim>\<open>generateCompressedFile\<close>. A marker
  type other than 0 and 1 adds no claim, and its owner is still stored in \<^verbatim>\<open>IDMap\<close>.
\<close>

definition claim_entry :: "real \<Rightarrow> Rectangle \<Rightarrow> VirtualBounds \<Rightarrow> ClaimFlagOutputEntry" where
  "claim_entry vToA clip vb =
     (let iX = clip_tX clip vb * vToA;
          iY = clip_tY clip vb * vToA
      in \<lparr>X = uint16_of_float iX, Y = uint16_of_float iY\<rparr>)"

definition add_claim ::
  "real \<Rightarrow> real \<Rightarrow> Rectangle \<Rightarrow> (64 word \<rightharpoonup> FlagOwnerOutputHeader) \<Rightarrow> VirtualBounds
     \<Rightarrow> (64 word \<rightharpoonup> FlagOwnerOutputHeader)" where
  "add_claim virtualWaterRadius vToA clip IDMap vb =
     (if outside_gutter virtualWaterRadius clip vb then IDMap
      else
        let owner = tribeOrOwnerID (vb_marker vb);
            Entry = (case IDMap owner of
                       Some e \<Rightarrow> e
                     | None \<Rightarrow> \<lparr>TribeOrPlayerID = owner, LandClaims = [], WaterClaims = []\<rparr>);
            Entry = (if markerType (vb_marker vb) = 0
                     then Entry\<lparr>LandClaims := LandClaims Entry @ [claim_entry vToA clip vb]\<rparr>
                     else if markerType (vb_marker vb) = 1
                     then Entry\<lparr>WaterClaims := WaterClaims Entry @ [claim_entry vToA clip vb]\<rparr>
                     else Entry)
        in IDMap(owner \<mapsto> Entry))"

definition collect_claims ::
  "real \<Rightarrow> real \<Rightarrow> Rectangle \<Rightarrow> VirtualBounds list \<Rightarrow> (64 word \<rightharpoonup> FlagOwnerOutputHeader)" where
  "collect_claims virtualWaterRadius vToA clip returned =
     foldl (add_claim virtualWaterRadius vToA clip) Map.empty returned"

text \<open>
  \<^verbatim>\<open>sort.Sort\<close> is not stable. \<^verbatim>\<open>IDList\<close> holds one header per key of \<^verbatim>\<open>IDMap\<close>, so no
  two of its elements compare equal and every sorting algorithm returns the same list;
  the model sorts by insertion.
\<close>

definition sort_Sort :: "('a \<Rightarrow> 'a \<Rightarrow> bool) \<Rightarrow> 'a list \<Rightarrow> 'a list" where
  "sort_Sort lt xs = foldr (stable_insert lt) xs []"

text \<open>The bytes written for one header of \<^verbatim>\<open>IDList\<close>, in the order of the writes.\<close>

definition write_claims :: "ClaimFlagOutputEntry list \<Rightarrow> 8 word list" where
  "write_claims claims = concat (map (\<lambda>Entry. PutUint16 (X Entry) @ PutUint16 (Y Entry)) claims)"

definition write_owner :: "FlagOwnerOutputHeader \<Rightarrow> 8 word list" where
  "write_owner k =
     PutUint64 (TribeOrPlayerID k)
     @ PutUint32 (word_of_nat (length (LandClaims k)))
     @ PutUint32 (word_of_nat (length (WaterClaims k)))
     @ write_claims (LandClaims k)
     @ write_claims (WaterClaims k)"

definition FileVerison :: "16 word" where
  "FileVerison = 2"

definition CompressionType :: "16 word" where
  "CompressionType = 0x0001"

text \<open>
  The bytes of the file, from \<^verbatim>\<open>IDMap\<close>. \<open>ks\<close> is the order in which
  \<^verbatim>\<open>for _, v := range IDMap\<close> visits the map.
\<close>

definition write_file ::
  "Configuration \<Rightarrow> MapOptions \<Rightarrow> (64 word \<rightharpoonup> FlagOwnerOutputHeader) \<Rightarrow> 64 word list \<Rightarrow> 8 word list" where
  "write_file cfg opts IDMap ks =
     (let SrcPixels = (word_of_int (actualPixels opts) :: 16 word);
          IDList = sort_Sort ByTribeOrPlayerID_Less (range_values IDMap ks)
      in PutUint16 FileVerison
         @ PutUint16 CompressionType
         @ PutUint16 SrcPixels
         @ PutUint16 (word_of_int (GameSize cfg))
         @ PutUint32 (word_of_nat (card (dom IDMap)))
         @ concat (map write_owner IDList))"

text \<open>
  \<^verbatim>\<open>generateCompressedFile\<close>: the result is the file written and its bytes. The errors of
  the file operations are ignored by the source.
\<close>

definition snapshot_IDMap ::
  "Configuration \<Rightarrow> Query \<Rightarrow> MapOptions \<Rightarrow> QuadTree \<Rightarrow> panic + (64 word \<rightharpoonup> FlagOwnerOutputHeader)" where
  "snapshot_IDMap cfg Query opts quadTree =
     (case virtualPixelsPerServer cfg opts of
        Inl e \<Rightarrow> Inl e
      | Inr vPPS \<Rightarrow>
          let virtualWaterRadius = vPPS * WaterRadiusUE cfg / GridSize cfg;
              vToA = virtualToActual opts;
              returned = Query quadTree (query_box (virtualClip opts))
          in Inr (collect_claims virtualWaterRadius vToA (virtualClip opts) returned))"

definition generateCompressedFile ::
  "Configuration \<Rightarrow> Query \<Rightarrow> MapOptions \<Rightarrow> QuadTree \<Rightarrow> 64 word list \<Rightarrow> panic + filename \<times> 8 word list" where
  "generateCompressedFile cfg Query opts quadTree ks =
     (case snapshot_IDMap cfg Query opts quadTree of
        Inl e \<Rightarrow> Inl e
      | Inr IDMap \<Rightarrow> Inr (filename opts, write_file cfg opts IDMap ks))"

text \<open>
  \<^verbatim>\<open>generateGame\<close>.
  \<^verbatim>\<open>ChannelBlocksPerDimension := uint16(math.Floor(math.Sqrt(float64(BitsPerPixel))))\<close>
\<close>

definition BitsPerPixel :: "16 word" where
  "BitsPerPixel = 32"

definition ChannelBlocksPerDimension :: "16 word" where
  "ChannelBlocksPerDimension = word_of_int \<lfloor>sqrt (real (unat BitsPerPixel))\<rfloor>"

definition servers :: "Configuration \<Rightarrow> int" where
  "servers cfg = (if ServersX cfg \<ge> ServersY cfg then ServersX cfg else ServersY cfg)"

definition game_options :: "Configuration \<Rightarrow> MapOptions" where
  "game_options cfg =
     (let CorrectedGameSize = go_mul (GameSize cfg) (uint ChannelBlocksPerDimension);
          virtualPixels = go_mul CorrectedGameSize (servers cfg)
      in \<lparr>filename = WorldMap, actualPixels = CorrectedGameSize, virtualPixels = virtualPixels,
          virtualClip = Rect 0 0 (go_sub virtualPixels 1) (go_sub virtualPixels 1)\<rparr>)"

definition generateGame ::
  "Configuration \<Rightarrow> Query \<Rightarrow> Marker list \<Rightarrow> 64 word list \<Rightarrow> panic + filename \<times> 8 word list" where
  "generateGame cfg Query markers ks =
     (case createQuadTree cfg (game_options cfg) markers of
        Inl e \<Rightarrow> Inl e
      | Inr qt \<Rightarrow> generateCompressedFile cfg Query (game_options cfg) qt ks)"

section \<open>The change fingerprint (territoryServer.go)\<close>

text \<open>
  \<^verbatim>\<open>hash/crc32\<close> with the IEEE polynomial, as the package's \<^verbatim>\<open>simplePopulateTable\<close> and
  \<^verbatim>\<open>simpleUpdate\<close> define it (the faster implementations the package selects compute
  the same function):
  \<^verbatim>\<open>
  for i := 0; i < 256; i++ {
      crc := uint32(i)
      for j := 0; j < 8; j++ {
          if crc&1 == 1 { crc = (crc >> 1) ^ poly } else { crc >>= 1 }
      }
      t[i] = crc
  }
  func simpleUpdate(crc uint32, tab *Table, p []byte) uint32 {
      crc = ^crc
      for _, v := range p { crc = tab[byte(crc)^v] ^ (crc >> 8) }
      return ^crc
  }
  \<close>
\<close>

definition IEEE :: "32 word" where
  "IEEE = 0xedb88320"

definition table_round :: "32 word \<Rightarrow> 32 word" where
  "table_round crc = (if crc AND 1 = 1 then drop_bit 1 crc XOR IEEE else drop_bit 1 crc)"

definition IEEETable :: "8 word \<Rightarrow> 32 word" where
  "IEEETable i = (table_round ^^ 8) (ucast i)"

definition simpleUpdate :: "32 word \<Rightarrow> 8 word list \<Rightarrow> 32 word" where
  "simpleUpdate crc p =
     NOT (foldl (\<lambda>crc v. IEEETable (ucast crc XOR v) XOR drop_bit 8 crc) (NOT crc) p)"

definition ChecksumIEEE :: "8 word list \<Rightarrow> 32 word" where
  "ChecksumIEEE data = simpleUpdate 0 data"

text \<open>
  The digest of \<^verbatim>\<open>crc32.NewIEEE()\<close> is its running checksum: \<^verbatim>\<open>Write\<close> updates it and
  \<^verbatim>\<open>Sum32\<close> reads it.
\<close>

definition NewIEEE :: "32 word" where
  "NewIEEE = 0"

definition digest_Write :: "32 word \<Rightarrow> 8 word list \<Rightarrow> 32 word" where
  "digest_Write d p = simpleUpdate d p"

text \<open>
  \<^verbatim>\<open>binary.LittleEndian.Uint16\<close> and \<^verbatim>\<open>Uint64\<close>, on a slice that is long enough.
\<close>

definition Uint16 :: "8 word list \<Rightarrow> 16 word" where
  "Uint16 b = ucast (b ! 0) OR push_bit 8 (ucast (b ! 1))"

definition Uint64 :: "8 word list \<Rightarrow> 64 word" where
  "Uint64 b =
     ucast (b ! 0) OR push_bit 8 (ucast (b ! 1)) OR push_bit 16 (ucast (b ! 2))
     OR push_bit 24 (ucast (b ! 3)) OR push_bit 32 (ucast (b ! 4))
     OR push_bit 40 (ucast (b ! 5)) OR push_bit 48 (ucast (b ! 6))
     OR push_bit 56 (ucast (b ! 7))"

text \<open>
  The marker store. \<open>client k\<close> is the result of
  \<^verbatim>\<open>client.SMembers(fmt.Sprintf("territorymapdata:%d", k)).Result()\<close>: the members of the
  set in the order the reply lists them, or \<open>None\<close> for an error.
\<close>

type_synonym redis = "int \<Rightarrow> 8 word list list option"

definition server_key :: "int \<Rightarrow> int \<Rightarrow> int" where
  "server_key x y = wrap_int (x * 2 ^ 16) OR y"

text \<open>
  The raw records that the loops of \<^verbatim>\<open>fetchClaimMarkers\<close> visit, each with its server
  cell, in the order of the visits. A cell whose read fails is skipped.
\<close>

definition cell_records :: "redis \<Rightarrow> int \<Rightarrow> int \<Rightarrow> (int \<times> int \<times> 8 word list) list" where
  "cell_records client x y =
     (case client (server_key x y) of
        None \<Rightarrow> []
      | Some results \<Rightarrow> map (\<lambda>rawString. (x, y, rawString)) results)"

definition raw_records :: "Configuration \<Rightarrow> redis \<Rightarrow> (int \<times> int \<times> 8 word list) list" where
  "raw_records cfg client =
     concat (map (\<lambda>x. concat (map (\<lambda>y. cell_records client (int x) (int y))
                                 [0..<nat (ServersY cfg)]))
               [0..<nat (ServersX cfg)])"

text \<open>
  The body of the innermost loop. \<^verbatim>\<open>bytes[12]\<close> panics on a record of fewer than 13
  bytes.
\<close>

definition parse_marker :: "int \<times> int \<times> 8 word list \<Rightarrow> panic + Marker" where
  "parse_marker r =
     (case r of (x, y, bytes) \<Rightarrow>
        if length bytes < 13 then Inl IndexOutOfRange
        else
          let tid = Uint64 (take 8 bytes);
              tx = Uint16 (take 2 (drop 8 bytes));
              ty = Uint16 (take 2 (drop 10 bytes))
          in Inr \<lparr>serverX = x, serverY = y, tribeOrOwnerID = tid,
                  relX = real (unat tx) / 65535, relY = real (unat ty) / 65535,
                  markerType = bytes ! 12,
                  UnusedExtra1 = 0, UnusedExtra2 = 0, UnusedExtra = 0\<rparr>)"

text \<open>
  The second half of \<^verbatim>\<open>fetchClaimMarkers\<close>: \<^verbatim>\<open>sort.Slice\<close> on plain numbers returns
  the sorted list, and \<^verbatim>\<open>binary.Write(hash, binary.LittleEndian, crc)\<close> writes the four
  bytes of \<^verbatim>\<open>crc\<close>.
\<close>

definition fold_crcs :: "32 word list \<Rightarrow> 32 word" where
  "fold_crcs crcs = foldl (\<lambda>hash crc. digest_Write hash (PutUint32 crc)) NewIEEE (sort crcs)"

definition fetchClaimMarkers :: "Configuration \<Rightarrow> redis \<Rightarrow> panic + Marker list \<times> 32 word" where
  "fetchClaimMarkers cfg client =
     (case sequence_results (map parse_marker (raw_records cfg client)) of
        Inl e \<Rightarrow> Inl e
      | Inr markers \<Rightarrow>
          Inr (markers,
               fold_crcs (map (\<lambda>(x, y, bytes). ChecksumIEEE bytes) (raw_records cfg client))))"

section \<open>The background workers (territoryServer.go)\<close>

text \<open>
  What a worker does to the world outside: the files it publishes and the messages it
  sends to the store. A worker's state is \<^verbatim>\<open>previousCrc\<close> and the effects so far.
\<close>

datatype effect =
    TileWritten tile_image
  | WorldMapWritten filename "8 word list"
  | UrlsUpdated
  | UrlsChangedNotified

record worker =
  previousCrc :: "32 word"
  effects :: "effect list"

text \<open>
  One round of the loop of \<^verbatim>\<open>tileBackgroundWorker\<close>, without the logging and the sleep.
  The zoom levels are generated by concurrent goroutines, which the worker waits for;
  their files are listed by zoom level.
\<close>

definition tile_cycle :: "Configuration \<Rightarrow> Query \<Rightarrow> redis \<Rightarrow> worker \<Rightarrow> panic + worker" where
  "tile_cycle cfg Query client w =
     (case fetchClaimMarkers cfg client of
        Inl e \<Rightarrow> Inl e
      | Inr (markers, crc) \<Rightarrow>
          if crc \<noteq> previousCrc w
          then (case sequence_results
                       (map (\<lambda>zoom. generateTiles cfg Query zoom markers) [0..<MaxZoom cfg]) of
                  Inl e \<Rightarrow> Inl e
                | Inr tiles \<Rightarrow>
                    Inr (w\<lparr>previousCrc := crc,
                           effects := effects w
                             @ map TileWritten (concat tiles)\<rparr>))
          else Inr w)"

text \<open>
  One round of the loop of \<^verbatim>\<open>gameBackgroundWorker\<close>. \<open>ks\<close> is the order in which
  \<^verbatim>\<open>generateCompressedFile\<close> ranges over its map in this round.
\<close>

definition game_cycle :: "Configuration \<Rightarrow> Query \<Rightarrow> redis \<times> 64 word list \<Rightarrow> worker \<Rightarrow> panic + worker" where
  "game_cycle cfg Query poll w =
     (case poll of (client, ks) \<Rightarrow>
        (case fetchClaimMarkers cfg client of
           Inl e \<Rightarrow> Inl e
         | Inr (markers, crc) \<Rightarrow>
             if crc \<noteq> previousCrc w
             then (case generateGame cfg Query markers ks of
                     Inl e \<Rightarrow> Inl e
                   | Inr (file, bytes) \<Rightarrow>
                       Inr (w\<lparr>previousCrc := crc,
                              effects := effects w
                                @ [WorldMapWritten file bytes, UrlsUpdated, UrlsChangedNotified]\<rparr>))
             else Inr w))"

text \<open>
  The loops never end. \<open>run_cycles\<close> runs one round for each element of a list of polls,
  which gives the first rounds of a worker; a panic ends the process.
\<close>

fun run_cycles :: "('p \<Rightarrow> worker \<Rightarrow> panic + worker) \<Rightarrow> 'p list \<Rightarrow> worker \<Rightarrow> panic + worker" where
  "run_cycles cycle [] w = Inr w"
| "run_cycles cycle (p # ps) w =
     (case cycle p w of
        Inl e \<Rightarrow> Inl e
      | Inr w' \<Rightarrow> run_cycles cycle ps w')"

definition tileBackgroundWorker :: "Configuration \<Rightarrow> Query \<Rightarrow> redis list \<Rightarrow> panic + worker" where
  "tileBackgroundWorker cfg Query polls =
     run_cycles (tile_cycle cfg Query) polls \<lparr>previousCrc = 1, effects = []\<rparr>"

definition gameBackgroundWorker ::
  "Configuration \<Rightarrow> Query \<Rightarrow> (redis \<times> 64 word list) list \<Rightarrow> panic + worker" where
  "gameBackgroundWorker cfg Query polls =
     run_cycles (game_cycle cfg Query) polls
       \<lparr>previousCrc = 1, effects = [UrlsUpdated, UrlsChangedNotified]\<rparr>"

section \<open>The order of the top-N list\<close>


text \<open>
  The same order as a key into the lexicographic order on pairs of integers, smallest
  first.
\<close>

definition rank_key :: "TribeCount \<Rightarrow> int \<times> int" where
  "rank_key t = (- uint (count' t), - uint (tribeID t))"

section \<open>The fingerprint of a snapshot\<close>

text \<open>
  The raw records of a snapshot without their server cells, and the fingerprint: the
  second component of the result of \<^verbatim>\<open>fetchClaimMarkers\<close>.
\<close>

definition raw_bytes :: "Configuration \<Rightarrow> redis \<Rightarrow> 8 word list list" where
  "raw_bytes cfg client = map (\<lambda>(x, y, bytes). bytes) (raw_records cfg client)"

definition fingerprint :: "Configuration \<Rightarrow> redis \<Rightarrow> panic + 32 word" where
  "fingerprint cfg client = map_sum id snd (fetchClaimMarkers cfg client)"

section \<open>The tile pyramid, as the specification describes it\<close>

text \<open>
  The virtual extent per axis, the virtual pixels per tile at a zoom level, and the
  options of the tile \<open>(tileX, tileY)\<close>: the fixed actual size, the extent, and the clip
  rectangle \<open>[tileX * v, tileX * v + v - 1] \<times> [tileY * v, tileY * v + v - 1]\<close>.
\<close>

definition virtual_extent :: "Configuration \<Rightarrow> int" where
  "virtual_extent cfg = TileSize cfg * 2 ^ (MaxZoom cfg - 1)"

definition pixels_per_tile :: "Configuration \<Rightarrow> nat \<Rightarrow> int" where
  "pixels_per_tile cfg z = virtual_extent cfg div 2 ^ z"

definition expected_tile :: "Configuration \<Rightarrow> nat \<Rightarrow> nat \<Rightarrow> nat \<Rightarrow> MapOptions" where
  "expected_tile cfg z tileX tileY =
     \<lparr>filename = TilePng z (int tileX) (int tileY),
      actualPixels = TileSize cfg,
      virtualPixels = virtual_extent cfg,
      virtualClip =
        \<lparr>Min_X = int tileX * pixels_per_tile cfg z,
         Min_Y = int tileY * pixels_per_tile cfg z,
         Max_X = int tileX * pixels_per_tile cfg z + pixels_per_tile cfg z - 1,
         Max_Y = int tileY * pixels_per_tile cfg z + pixels_per_tile cfg z - 1\<rparr>\<rparr>"

definition expected_tiles :: "Configuration \<Rightarrow> nat \<Rightarrow> MapOptions list" where
  "expected_tiles cfg z =
     concat (map (\<lambda>tileX. map (\<lambda>tileY. expected_tile cfg z tileX tileY) [0..<2 ^ z])
               [0..<2 ^ z])"

definition in_rectangle :: "Rectangle \<Rightarrow> int \<Rightarrow> int \<Rightarrow> bool" where
  "in_rectangle r px py \<longleftrightarrow>
     Min_X r \<le> px \<and> px \<le> Max_X r \<and> Min_Y r \<le> py \<and> py \<le> Max_Y r"

section \<open>The gutter, as the specification describes it\<close>

text \<open>
  An entity lies in the clip window expanded on every side by the water radius.
\<close>

definition in_gutter_window :: "real \<Rightarrow> Rectangle \<Rightarrow> VirtualBounds \<Rightarrow> bool" where
  "in_gutter_window virtualWaterRadius clip vb \<longleftrightarrow>
     real_of_int (Min_X clip) - virtualWaterRadius \<le> vb_x vb
     \<and> vb_x vb \<le> real_of_int (Max_X clip) + virtualWaterRadius
     \<and> real_of_int (Min_Y clip) - virtualWaterRadius \<le> vb_y vb
     \<and> vb_y vb \<le> real_of_int (Max_Y clip) + virtualWaterRadius"

text \<open>
  Two boxes meet. The specification says of the index that a query returns the entities
  whose bounding box meets the query box.
\<close>

definition boxes_meet :: "BoundingBox \<Rightarrow> BoundingBox \<Rightarrow> bool" where
  "boxes_meet a b \<longleftrightarrow>
     MinX a \<le> MaxX b \<and> MinX b \<le> MaxX a \<and> MinY a \<le> MaxY b \<and> MinY b \<le> MaxY a"

section \<open>The world snapshot, as the specification describes it\<close>

text \<open>
  The owner aggregate of owner \<open>k\<close> over a list of entities: its land claims and its water
  claims, each in the order of the list.
\<close>

definition owner_of :: "VirtualBounds \<Rightarrow> 64 word" where
  "owner_of vb = tribeOrOwnerID (vb_marker vb)"

definition owner_record :: "real \<Rightarrow> Rectangle \<Rightarrow> VirtualBounds list \<Rightarrow> 64 word \<Rightarrow> FlagOwnerOutputHeader" where
  "owner_record vToA clip entities k =
     \<lparr>TribeOrPlayerID = k,
      LandClaims = map (claim_entry vToA clip)
                     (filter (\<lambda>vb. owner_of vb = k \<and> markerType (vb_marker vb) = 0) entities),
      WaterClaims = map (claim_entry vToA clip)
                     (filter (\<lambda>vb. owner_of vb = k \<and> markerType (vb_marker vb) = 1) entities)\<rparr>"

text \<open>
  The little-endian encoding of a number in \<open>n\<close> bytes, least significant byte first.
\<close>

definition le_bytes :: "nat \<Rightarrow> nat \<Rightarrow> 8 word list" where
  "le_bytes n v = map (\<lambda>k. word_of_nat (v div 256 ^ k mod 256)) [0..<n]"

text \<open>
  The layout of the world snapshot: the header, then one record per owner, each with its
  ID, its two counts, its land claims and its water claims.
\<close>

definition claim_bytes :: "ClaimFlagOutputEntry \<Rightarrow> 8 word list" where
  "claim_bytes c = le_bytes 2 (unat (X c)) @ le_bytes 2 (unat (Y c))"

definition owner_bytes :: "FlagOwnerOutputHeader \<Rightarrow> 8 word list" where
  "owner_bytes k =
     le_bytes 8 (unat (TribeOrPlayerID k))
     @ le_bytes 4 (length (LandClaims k))
     @ le_bytes 4 (length (WaterClaims k))
     @ concat (map claim_bytes (LandClaims k))
     @ concat (map claim_bytes (WaterClaims k))"

definition snapshot_format :: "nat \<Rightarrow> nat \<Rightarrow> FlagOwnerOutputHeader list \<Rightarrow> 8 word list" where
  "snapshot_format sourceResolution destResolution owners =
     le_bytes 2 2
     @ le_bytes 2 1
     @ le_bytes 2 sourceResolution
     @ le_bytes 2 destResolution
     @ le_bytes 4 (length owners)
     @ concat (map owner_bytes owners)"

text \<open>
  The entities that reach the snapshot, and the owner aggregates in ascending order of
  the owner ID.
\<close>

definition water_radius :: "Configuration \<Rightarrow> MapOptions \<Rightarrow> real" where
  "water_radius cfg opts =
     (case virtualPixelsPerServer cfg opts of
        Inl e \<Rightarrow> 0
      | Inr vPPS \<Rightarrow> vPPS * WaterRadiusUE cfg / GridSize cfg)"

definition snapshot_entities :: "Configuration \<Rightarrow> Query \<Rightarrow> MapOptions \<Rightarrow> QuadTree \<Rightarrow> VirtualBounds list" where
  "snapshot_entities cfg Query opts quadTree =
     processed (water_radius cfg opts) (virtualClip opts)
       (Query quadTree (query_box (virtualClip opts)))"

definition snapshot_owners ::
  "Configuration \<Rightarrow> Query \<Rightarrow> MapOptions \<Rightarrow> QuadTree \<Rightarrow> FlagOwnerOutputHeader list" where
  "snapshot_owners cfg Query opts quadTree =
     map (owner_record (virtualToActual opts) (virtualClip opts)
            (snapshot_entities cfg Query opts quadTree))
       (sorted_list_of_set (owner_of ` set (snapshot_entities cfg Query opts quadTree)))"

section \<open>Concrete inputs\<close>

text \<open>
  A configuration of one server cell and one zoom level, with the radii and sizes of the
  defaults of \<^verbatim>\<open>loadConfig\<close>.
\<close>

definition example_cfg :: Configuration where
  "example_cfg =
     \<lparr>ServersX = 1, ServersY = 1, GameSize = 2048, TileSize = 256, MaxZoom = 1,
      GridSize = 1400000, LandRadiusUE = 10000, WaterRadiusUE = 21000, CircleAlpha = 128\<rparr>"

text \<open>
  Raw records of 13 bytes: owner ID, x, y and type, little-endian. \<open>record_A\<close> is a land
  marker of owner 1000050001 at (100, 200); \<open>record_B\<close> differs from it in its owner,
  8068434704; \<open>record_C\<close> is a water marker of owner 7 at (1, 2).
\<close>

definition record_A :: "8 word list" where
  "record_A = [81, 141, 155, 59, 0, 0, 0, 0, 100, 0, 200, 0, 0]"


definition record_C :: "8 word list" where
  "record_C = [7, 0, 0, 0, 0, 0, 0, 0, 1, 0, 2, 0, 1]"

text \<open>A store whose only non-empty set is that of server cell (0, 0).\<close>

definition store :: "8 word list list \<Rightarrow> redis" where
  "store results = (\<lambda>k. if k = 0 then Some results else None)"

text \<open>A query that returns every entity of the tree.\<close>

definition query_all :: Query where
  "query_all quadTree box = quadTree"

text \<open>
  A land marker of owner 1000050001 at three fifths of the width and one fifth of the
  height of server cell (0, 0), and the pyramid of three zoom levels over one cell.
\<close>

definition example_marker :: Marker where
  "example_marker =
     \<lparr>serverX = 0, serverY = 0, tribeOrOwnerID = 1000050001, relX = 3 / 5, relY = 1 / 5,
      markerType = 0, UnusedExtra1 = 0, UnusedExtra2 = 0, UnusedExtra = 0\<rparr>"

definition example_pyramid :: Configuration where
  "example_pyramid = example_cfg\<lparr>MaxZoom := 3\<rparr>"

text \<open>
  The options of the world snapshot for \<open>example_cfg\<close>, a water marker of owner 7, and
  the entities of the two example markers in the virtual space of the snapshot.
\<close>

definition example_world :: MapOptions where
  "example_world =
     \<lparr>filename = WorldMap, actualPixels = 10240, virtualPixels = 10240,
      virtualClip = \<lparr>Min_X = 0, Min_Y = 0, Max_X = 10239, Max_Y = 10239\<rparr>\<rparr>"

definition example_water_marker :: Marker where
  "example_water_marker =
     \<lparr>serverX = 0, serverY = 0, tribeOrOwnerID = 7, relX = 201 / 20480, relY = 803 / 40960,
      markerType = 1, UnusedExtra1 = 0, UnusedExtra2 = 0, UnusedExtra = 0\<rparr>"

definition example_entities :: QuadTree where
  "example_entities =
     [\<lparr>vb_x = 6144, vb_y = 2048, vb_radius = 768 / 5, vb_marker = example_marker\<rparr>,
      \<lparr>vb_x = 201 / 2, vb_y = 803 / 4, vb_radius = 768 / 5, vb_marker = example_water_marker\<rparr>]"

section \<open>Top-N selection: the heap and the sort\<close>

lemma length_Swap: "length (Swap h i j) = length h"
  by (simp add: Swap_def)

lemma mset_Swap: "i < length h \<Longrightarrow> j < length h \<Longrightarrow> mset (Swap h i j) = mset h"
  by (simp add: Swap_def mset_swap)

lemma child_bounds: "2 * i + 1 < n \<Longrightarrow> i < child h i n \<and> child h i n < n"
  by (simp add: child_def)

lemma length_down: "length (down h i n) = length h"
proof (induction h i n rule: down.induct)
  case (1 h i n)
  show ?case
  proof (cases "2 * i + 1 \<ge> n \<or> \<not> Less (h ! child h i n) (h ! i)")
    case True
    then show ?thesis by (subst down.simps) auto
  next
    case False
    then have "down h i n = down (Swap h i (child h i n)) (child h i n) n"
      by (subst down.simps) auto
    with False 1 show ?thesis by (simp add: length_Swap)
  qed
qed

lemma mset_down: "n \<le> length h \<Longrightarrow> mset (down h i n) = mset h"
proof (induction h i n rule: down.induct)
  case (1 h i n)
  show ?case
  proof (cases "2 * i + 1 \<ge> n \<or> \<not> Less (h ! child h i n) (h ! i)")
    case True
    then show ?thesis by (subst down.simps) auto
  next
    case False
    then have eq: "down h i n = down (Swap h i (child h i n)) (child h i n) n"
      by (subst down.simps) auto
    from False have "i < child h i n \<and> child h i n < n"
      by (intro child_bounds) simp
    with False 1 eq show ?thesis by (simp add: length_Swap mset_Swap)
  qed
qed

lemma foldl_down_invariant:
  "length h = n \<Longrightarrow> length (foldl (\<lambda>h i. down h i n) h is) = n
     \<and> mset (foldl (\<lambda>h i. down h i n) h is) = mset h"
  by (induction "is" arbitrary: h) (simp_all add: length_down mset_down)

lemma mset_heap_Init: "mset (heap_Init h) = mset h"
  by (simp add: heap_Init_def Let_def foldl_down_invariant)

lemma sort_less_rank_key: "sort_less a b \<longleftrightarrow> rank_key a < rank_key b"
  by (auto simp: sort_less_def rank_key_def word_less_def word_uint_eq_iff)

lemma stable_insert_insort:
  "(\<And>a b. lt a b \<longleftrightarrow> f a < f b) \<Longrightarrow> stable_insert lt x ys = insort_key f x ys"
  by (induction ys) (auto simp: not_less)

lemma SliceStable_sort_key:
  assumes "\<And>a b. lt a b \<longleftrightarrow> f a < (f b :: 'b :: linorder)"
  shows "SliceStable lt xs = sort_key f xs"
proof -
  have "stable_insert lt = insort_key f"
    using stable_insert_insort [of lt f, OF assms] by (intro ext)
  then show ?thesis by (simp add: SliceStable_def sort_key_def)
qed

lemma inj_rank_key: "inj rank_key"
  by (auto simp: inj_def rank_key_def word_uint_eq_iff intro: TribeCount.equality)

lemma sort_key_mset_unique:
  assumes "mset xs = mset ys" "inj f"
  shows "sort_key f xs = sort_key f ys"
proof (rule sort_key_inj_key_eq)
  show "mset xs = mset (sort_key f ys)" using assms by simp
  show "inj_on f (set xs)" using assms(2) by (rule inj_on_subset) simp
  show "sorted (map f (sort_key f ys))" by simp
qed

lemma map_nth_upt_take:
  "k \<le> length xs \<Longrightarrow> map (\<lambda>i. f (xs ! i)) [0..<k] = map f (take k xs)"
  by (rule nth_equalityI) simp_all

lemma mset_range_values:
  assumes "iteration_order m ks" "iteration_order m ks'"
  shows "mset (range_values m ks) = mset (range_values m ks')"
proof -
  have "mset ks = mset ks'"
    using assms by (simp add: iteration_order_def set_eq_iff_mset_eq_distinct [symmetric])
  then have "mset (List.map_filter m ks) = mset (List.map_filter m ks')"
    unfolding List.map_filter_def by (metis mset_filter mset_map)
  then show ?thesis by (simp add: range_values_def)
qed




lemma TopNTribes_sort_key:
  "TopNTribes n counts ks =
     map tribeID (take (nat n) (sort_key rank_key (heap_Init (range_values counts ks))))"
proof -
  define pq where "pq = sort_key rank_key (heap_Init (range_values counts ks))"
  have unfolded: "TopNTribes n counts ks =
      map (\<lambda>i. tribeID (pq ! i)) [0..<nat (Min_int n (int (length pq)))]"
    by (simp add: TopNTribes_def Let_def pq_def SliceStable_sort_key [OF sort_less_rank_key])
  have "nat (Min_int n (int (length pq))) = min (nat n) (length pq)"
    by (simp add: Min_int_def)
  moreover have "map (\<lambda>i. tribeID (pq ! i)) [0..<min (nat n) (length pq)]
                   = map tribeID (take (min (nat n) (length pq)) pq)"
    by (rule map_nth_upt_take) simp
  moreover have "take (min (nat n) (length pq)) pq = take (nat n) pq"
    by (simp add: min_def)
  ultimately have "TopNTribes n counts ks = map tribeID (take (nat n) pq)"
    using unfolded by simp
  then show ?thesis by (simp add: pq_def)
qed


text \<open>
  Claim C10: the result of \<^verbatim>\<open>TopNTribes\<close> of tribeCount.go is the same for any two
  orders in which \<^verbatim>\<open>range\<close> may visit the same map.
\<close>

theorem TopNTribes_iteration_order_independent:
  assumes "iteration_order counts ks" and "iteration_order counts ks'"
  shows "TopNTribes n counts ks = TopNTribes n counts ks'"
proof -
  have "mset (heap_Init (range_values counts ks)) = mset (heap_Init (range_values counts ks'))"
    using mset_range_values [OF assms] by (simp add: mset_heap_Init)
  then have "sort_key rank_key (heap_Init (range_values counts ks))
               = sort_key rank_key (heap_Init (range_values counts ks'))"
    by (rule sort_key_mset_unique) (rule inj_rank_key)
  then show ?thesis by (simp add: TopNTribes_sort_key)
qed



text \<open>
  The same map visited in the orders 10, 20, 5 and 5, 20, 10.
\<close>

theorem TopNTribes_iteration_order_independent_witness:
  "iteration_order [10 \<mapsto> \<lparr>tribeID = 10, count' = 5\<rparr>, 20 \<mapsto> \<lparr>tribeID = 20, count' = 5\<rparr>,
                    5 \<mapsto> \<lparr>tribeID = 5, count' = 3\<rparr>] [10, 20, 5 :: 64 word]
   \<and> iteration_order [10 \<mapsto> \<lparr>tribeID = 10, count' = 5\<rparr>, 20 \<mapsto> \<lparr>tribeID = 20, count' = 5\<rparr>,
                    5 \<mapsto> \<lparr>tribeID = 5, count' = 3\<rparr>] [5, 20, 10 :: 64 word]
   \<and> TopNTribes 3 [10 \<mapsto> \<lparr>tribeID = 10, count' = 5\<rparr>, 20 \<mapsto> \<lparr>tribeID = 20, count' = 5\<rparr>,
                    5 \<mapsto> \<lparr>tribeID = 5, count' = 3\<rparr>] [10, 20, 5]
     = TopNTribes 3 [10 \<mapsto> \<lparr>tribeID = 10, count' = 5\<rparr>, 20 \<mapsto> \<lparr>tribeID = 20, count' = 5\<rparr>,
                    5 \<mapsto> \<lparr>tribeID = 5, count' = 3\<rparr>] [5, 20, 10]"
proof -
  have h1: "iteration_order [10 \<mapsto> \<lparr>tribeID = 10, count' = 5\<rparr>, 20 \<mapsto> \<lparr>tribeID = 20, count' = 5\<rparr>,
                    5 \<mapsto> \<lparr>tribeID = 5, count' = 3\<rparr>] [10, 20, 5 :: 64 word]"
    unfolding iteration_order_def by auto
  have h2: "iteration_order [10 \<mapsto> \<lparr>tribeID = 10, count' = 5\<rparr>, 20 \<mapsto> \<lparr>tribeID = 20, count' = 5\<rparr>,
                    5 \<mapsto> \<lparr>tribeID = 5, count' = 3\<rparr>] [5, 20, 10 :: 64 word]"
    unfolding iteration_order_def by auto
  show ?thesis
    using h1 h2 TopNTribes_iteration_order_independent [OF h1 h2, of 3] by simp
qed

text \<open>
  The heap variant returns \<open>[20, 10]\<close> on the same example, and for \<open>n = 3\<close> its result
  follows the order of the iteration.
\<close>

lemma TopNTribes_heap_example:
  "TopNTribes_heap 2 [10 \<mapsto> \<lparr>tribeID = 10, count' = 5\<rparr>, 20 \<mapsto> \<lparr>tribeID = 20, count' = 5\<rparr>,
                    5 \<mapsto> \<lparr>tribeID = 5, count' = 3\<rparr>] [10, 20, 5] = Inr [20, 10]"
  by code_simp

lemma TopNTribes_heap_order_dependent:
  "TopNTribes_heap 3 [10 \<mapsto> \<lparr>tribeID = 10, count' = 5\<rparr>, 20 \<mapsto> \<lparr>tribeID = 20, count' = 5\<rparr>,
                    5 \<mapsto> \<lparr>tribeID = 5, count' = 3\<rparr>] [5, 20, 10] = Inr [10, 20, 5]
   \<and> TopNTribes_heap 3 [10 \<mapsto> \<lparr>tribeID = 10, count' = 5\<rparr>, 20 \<mapsto> \<lparr>tribeID = 20, count' = 5\<rparr>,
                    5 \<mapsto> \<lparr>tribeID = 5, count' = 3\<rparr>] [5, 10, 20] = Inr [20, 10, 5]"
  by code_simp

section \<open>Owner colour\<close>

text \<open>
  Claim C4, as the code has it: owner 0 gets the reserved black; an owner ID up to and
  including 1000050000 is an individual player and gets gray; a larger one is a group and
  gets the palette colour at index \<open>ownerID mod 4\<close>.
\<close>

theorem getTribeColor_cases:
  "getTribeColor tid =
     (if tid = 0 then NRGBA 0x00 0x00 0x00 0xff
      else if tid \<le> 1000050000 then NRGBA 0xa9 0xa9 0xa9 0xff
      else colorValues (colors ! (unat tid mod length colors)))"
  by (simp add: getTribeColor_def isTribeID_def colorValues_def colorValues_table_def
      not_less unat_mod colors_def)

text \<open>
  Claim C4 as stated fails at the threshold itself: 1000050000 is not below the threshold,
  and its colour is gray, not the palette colour.
\<close>

theorem getTribeColor_threshold_counterexample:
  "\<not> (1000050000 :: 64 word) < 1000050000
   \<and> getTribeColor 1000050000 = NRGBA 0xa9 0xa9 0xa9 0xff
   \<and> getTribeColor 1000050000 \<noteq> colorValues (colors ! (unat (1000050000 :: 64 word) mod length colors))"
  by (simp add: getTribeColor_def isTribeID_def colorValues_def colorValues_table_def colors_def)


section \<open>The change fingerprint\<close>

lemma funpow_8: "(f ^^ 8) x = f (f (f (f (f (f (f (f x)))))))"
  by (simp add: eval_nat_numeral)

lemma table_round_numeral:
  "table_round (numeral k) =
     (if numeral k AND 1 = (1 :: 32 word) then drop_bit 1 (numeral k) XOR IEEE
      else drop_bit 1 (numeral k))"
  "table_round 0 = 0"
  "table_round 1 = IEEE"
  by (simp_all add: table_round_def)

lemma IEEETable_numeral:
  "IEEETable (numeral k) =
     table_round (table_round (table_round (table_round (table_round (table_round
       (table_round (table_round (ucast (numeral k :: 8 word)))))))))"
  "IEEETable 0 = 0"
  "IEEETable 1 =
     table_round (table_round (table_round (table_round (table_round (table_round
       (table_round (table_round 1)))))))"
  by (simp_all add: IEEETable_def funpow_8 table_round_numeral)

lemma NOT_32: "NOT (c :: 32 word) = c XOR 0xffffffff"
proof -
  have "(0xffffffff :: 32 word) = - 1" by simp
  then show ?thesis by (simp only: bit.xor_one_right)
qed

lemmas crc_eval =
  ChecksumIEEE_def simpleUpdate_def NOT_32 IEEETable_numeral table_round_numeral IEEE_def

lemma ChecksumIEEE_check_value:
  "ChecksumIEEE [0x31, 0x32, 0x33, 0x34, 0x35, 0x36, 0x37, 0x38, 0x39] = 0xCBF43926"
  by (simp add: crc_eval)

lemma simpleUpdate_append:
  "simpleUpdate (simpleUpdate crc p) q = simpleUpdate crc (p @ q)"
  by (simp add: simpleUpdate_def)

lemma foldl_digest_Write:
  "foldl (\<lambda>hash crc. digest_Write hash (f crc)) h crcs = simpleUpdate h (concat (map f crcs))"
proof (induction crcs arbitrary: h)
  case Nil
  show ?case by (simp add: simpleUpdate_def)
next
  case (Cons c crcs)
  then show ?case by (simp add: digest_Write_def simpleUpdate_append)
qed

lemma fold_crcs_ChecksumIEEE:
  "fold_crcs crcs = ChecksumIEEE (concat (map PutUint32 (sort crcs)))"
  by (simp add: fold_crcs_def foldl_digest_Write NewIEEE_def ChecksumIEEE_def)

lemma fold_crcs_mset:
  assumes "mset crcs = mset crcs'"
  shows "fold_crcs crcs = fold_crcs crcs'"
proof -
  have "sort crcs = sort crcs'"
    by (rule properties_for_sort) (simp_all add: assms)
  then show ?thesis by (simp add: fold_crcs_def)
qed

lemma sequence_results_cases:
  "(\<forall>r \<in> set rs. isl r \<longrightarrow> r = Inl e) \<Longrightarrow>
     sequence_results rs = (if \<exists>r \<in> set rs. isl r then Inl e else Inr (map projr rs))"
proof (induction rs)
  case Nil
  show ?case by simp
next
  case (Cons r rs)
  show ?case
  proof (cases r)
    case (Inl e')
    with Cons.prems show ?thesis by simp
  next
    case (Inr v)
    with Cons show ?thesis by (simp split: sum.splits)
  qed
qed

lemma isl_parse_marker:
  "isl (parse_marker r) \<longleftrightarrow> length (snd (snd r)) < 13"
  by (cases r) (simp add: parse_marker_def Let_def)

lemma parse_marker_Inl:
  "isl (parse_marker r) \<Longrightarrow> parse_marker r = Inl IndexOutOfRange"
  by (cases r) (simp add: parse_marker_def Let_def split: if_splits)

lemma fingerprint_value:
  "fingerprint cfg client =
     (if list_ex (\<lambda>bytes. length bytes < 13) (raw_bytes cfg client) then Inl IndexOutOfRange
      else Inr (ChecksumIEEE (concat (map PutUint32
                  (sort (map ChecksumIEEE (raw_bytes cfg client)))))))"
proof -
  have short: "(\<exists>r \<in> set (map parse_marker (raw_records cfg client)). isl r)
                 \<longleftrightarrow> list_ex (\<lambda>bytes. length bytes < 13) (raw_bytes cfg client)"
  proof -
    have "(\<exists>r \<in> set (map parse_marker (raw_records cfg client)). isl r)
            \<longleftrightarrow> (\<exists>r \<in> set (raw_records cfg client). length (snd (snd r)) < 13)"
      by (simp add: isl_parse_marker)
    also have "\<dots> \<longleftrightarrow> (\<exists>bytes \<in> set (raw_bytes cfg client). length bytes < 13)"
      by (simp add: raw_bytes_def case_prod_unfold)
    finally show ?thesis by (simp add: list_ex_iff)
  qed
  have "\<forall>r \<in> set (map parse_marker (raw_records cfg client)).
          isl r \<longrightarrow> r = Inl IndexOutOfRange"
    by (auto dest: parse_marker_Inl)
  then have seq: "sequence_results (map parse_marker (raw_records cfg client))
      = (if list_ex (\<lambda>bytes. length bytes < 13) (raw_bytes cfg client) then Inl IndexOutOfRange
         else Inr (map projr (map parse_marker (raw_records cfg client))))"
    using short by (simp add: sequence_results_cases)
  have "map (\<lambda>(x, y, bytes). ChecksumIEEE bytes) (raw_records cfg client)
          = map ChecksumIEEE (raw_bytes cfg client)"
    by (simp add: raw_bytes_def case_prod_unfold)
  then show ?thesis
    by (simp add: fingerprint_def fetchClaimMarkers_def seq fold_crcs_ChecksumIEEE)
qed

lemma fingerprint_mset:
  assumes "mset (raw_bytes cfg' client') = mset (raw_bytes cfg client)"
  shows "fingerprint cfg' client' = fingerprint cfg client"
proof -
  have "set (raw_bytes cfg' client') = set (raw_bytes cfg client)"
    using assms by (rule mset_eq_setD)
  then have "list_ex (\<lambda>bytes. length bytes < 13) (raw_bytes cfg' client')
               = list_ex (\<lambda>bytes. length bytes < 13) (raw_bytes cfg client)"
    by (simp add: list_ex_iff)
  moreover have "mset (map ChecksumIEEE (raw_bytes cfg' client'))
                   = mset (map ChecksumIEEE (raw_bytes cfg client))"
    using assms by (metis mset_map)
  then have "sort (map ChecksumIEEE (raw_bytes cfg' client'))
               = sort (map ChecksumIEEE (raw_bytes cfg client))"
    by (intro properties_for_sort) simp_all
  ultimately show ?thesis by (simp add: fingerprint_value)
qed


lemma raw_records_store:
  "raw_records example_cfg (store rs) = map (\<lambda>bytes. (0, 0, bytes)) rs"
  by (simp add: raw_records_def example_cfg_def cell_records_def store_def server_key_def
      wrap_int_def)

lemma raw_bytes_store: "raw_bytes example_cfg (store rs) = rs"
  by (simp add: raw_bytes_def raw_records_store comp_def)

lemma ChecksumIEEE_record_A: "ChecksumIEEE record_A = 3156991954"
  by (simp add: record_A_def crc_eval)


lemma fingerprint_store_A: "fingerprint example_cfg (store [record_A]) = Inr 2674646733"
proof -
  have "\<not> list_ex (\<lambda>bytes. length bytes < 13) [record_A]"
    by (simp add: record_A_def)
  moreover have "ChecksumIEEE (concat (map PutUint32 (sort [3156991954]))) = 2674646733"
    by (simp add: PutUint32_def crc_eval)
  ultimately show ?thesis
    by (simp add: fingerprint_value raw_bytes_store ChecksumIEEE_record_A)
qed





text \<open>
  Claim C3: the fingerprint that \<^verbatim>\<open>fetchClaimMarkers\<close> returns is the CRC-32 of the
  little-endian bytes of the ascending list of the records' CRC-32 checksums, and two
  snapshots with the same multiset of raw records, in whatever order and cells the records
  arrive, have the same fingerprint.
\<close>

theorem fingerprint_order_independent:
  assumes "mset (raw_bytes cfg' client') = mset (raw_bytes cfg client)"
  shows "fingerprint cfg' client' = fingerprint cfg client
         \<and> fingerprint cfg client =
             (if list_ex (\<lambda>bytes. length bytes < 13) (raw_bytes cfg client)
              then Inl IndexOutOfRange
              else Inr (ChecksumIEEE (concat (map PutUint32
                          (sort (map ChecksumIEEE (raw_bytes cfg client)))))))"
  using fingerprint_mset [OF assms] fingerprint_value [of cfg client] by simp

text \<open>
  Two records of server cell (0, 0), delivered in either order.
\<close>

theorem fingerprint_order_independent_witness:
  "mset (raw_bytes example_cfg (store [record_C, record_A]))
     = mset (raw_bytes example_cfg (store [record_A, record_C]))
   \<and> fingerprint example_cfg (store [record_C, record_A])
       = fingerprint example_cfg (store [record_A, record_C])
   \<and> fingerprint example_cfg (store [record_A, record_C])
       = Inr (ChecksumIEEE (concat (map PutUint32
                (sort (map ChecksumIEEE [record_A, record_C])))))"
proof -
  have h: "mset (raw_bytes example_cfg (store [record_C, record_A]))
             = mset (raw_bytes example_cfg (store [record_A, record_C]))"
    by (simp add: raw_bytes_store)
  have "\<not> list_ex (\<lambda>bytes. length bytes < 13) [record_A, record_C]"
    by (simp add: record_A_def record_C_def)
  then show ?thesis
    using h fingerprint_order_independent [OF h] by (simp add: raw_bytes_store)
qed





section \<open>The background workers\<close>

lemma tile_cycle_skip:
  "fetchClaimMarkers cfg client = Inr (markers, crc) \<Longrightarrow> crc = previousCrc w
     \<Longrightarrow> tile_cycle cfg Query client w = Inr w"
  by (simp add: tile_cycle_def)

lemma game_cycle_skip:
  "fetchClaimMarkers cfg client = Inr (markers, crc) \<Longrightarrow> crc = previousCrc w
     \<Longrightarrow> game_cycle cfg Query (client, ks) w = Inr w"
  by (simp add: game_cycle_def)

lemma tile_cycle_again:
  assumes "tile_cycle cfg Query client w = Inr w'"
  shows "tile_cycle cfg Query client w' = Inr w'"
proof -
  from assms obtain markers crc where
    fetch: "fetchClaimMarkers cfg client = Inr (markers, crc)"
    by (auto simp: tile_cycle_def split: sum.splits)
  have "crc = previousCrc w'"
    using assms fetch by (auto simp: tile_cycle_def split: sum.splits if_splits)
  with fetch show ?thesis by (rule tile_cycle_skip)
qed

lemma game_cycle_again:
  assumes "game_cycle cfg Query (client, ks) w = Inr w'"
  shows "game_cycle cfg Query (client, ks') w' = Inr w'"
proof -
  from assms obtain markers crc where
    fetch: "fetchClaimMarkers cfg client = Inr (markers, crc)"
    by (auto simp: game_cycle_def split: sum.splits)
  have "crc = previousCrc w'"
    using assms fetch by (auto simp: game_cycle_def split: sum.splits if_splits)
  with fetch show ?thesis by (rule game_cycle_skip)
qed

lemma tile_run_twice:
  "run_cycles (tile_cycle cfg Query) [client, client] w
     = run_cycles (tile_cycle cfg Query) [client] w"
  by (cases "tile_cycle cfg Query client w") (simp_all add: tile_cycle_again)

lemma game_run_twice:
  "run_cycles (game_cycle cfg Query) [(client, ks), (client, ks')] w
     = run_cycles (game_cycle cfg Query) [(client, ks)] w"
  by (cases "game_cycle cfg Query (client, ks) w") (simp_all add: game_cycle_again)

lemma workers_poll_twice:
  "tileBackgroundWorker cfg Query [client, client] = tileBackgroundWorker cfg Query [client]"
  "gameBackgroundWorker cfg Query [(client, ks), (client, ks')]
     = gameBackgroundWorker cfg Query [(client, ks)]"
  by (simp_all only: tileBackgroundWorker_def gameBackgroundWorker_def tile_run_twice
      game_run_twice)

text \<open>
  Claim C7: a round of either worker that fetches a snapshot with the stored fingerprint
  leaves the worker as it is: no tile is generated, no snapshot is encoded and nothing is
  published. Two rounds on the same snapshot have the effects of the first round alone.
\<close>

theorem worker_skips_unchanged_snapshot:
  "(fetchClaimMarkers cfg client = Inr (markers, crc) \<and> crc = previousCrc w \<longrightarrow>
      tile_cycle cfg Query client w = Inr w \<and> game_cycle cfg Query (client, ks) w = Inr w)
   \<and> run_cycles (tile_cycle cfg Query) [client, client] w
       = run_cycles (tile_cycle cfg Query) [client] w
   \<and> run_cycles (game_cycle cfg Query) [(client, ks), (client, ks')] w
       = run_cycles (game_cycle cfg Query) [(client, ks)] w"
proof (intro conjI impI)
  assume "fetchClaimMarkers cfg client = Inr (markers, crc) \<and> crc = previousCrc w"
  then show "tile_cycle cfg Query client w = Inr w"
    and "game_cycle cfg Query (client, ks) w = Inr w"
    by (simp_all add: tile_cycle_skip game_cycle_skip)
next
  show "run_cycles (tile_cycle cfg Query) [client, client] w
          = run_cycles (tile_cycle cfg Query) [client] w"
    by (rule tile_run_twice)
next
  show "run_cycles (game_cycle cfg Query) [(client, ks), (client, ks')] w
          = run_cycles (game_cycle cfg Query) [(client, ks)] w"
    by (rule game_run_twice)
qed

lemma fetch_store_A:
  "\<exists>markers. fetchClaimMarkers example_cfg (store [record_A]) = Inr (markers, 2674646733)"
proof -
  have "fingerprint example_cfg (store [record_A]) = Inr 2674646733"
    by (rule fingerprint_store_A)
  then show ?thesis
    by (cases "fetchClaimMarkers example_cfg (store [record_A])") (auto simp: fingerprint_def)
qed

text \<open>
  A worker that has stored the fingerprint 2674646733 polls the snapshot of \<open>record_A\<close>.
\<close>

theorem worker_skips_unchanged_snapshot_witness:
  "\<exists>markers.
     fetchClaimMarkers example_cfg (store [record_A]) = Inr (markers, 2674646733)
     \<and> 2674646733 = previousCrc \<lparr>previousCrc = 2674646733, effects = [UrlsUpdated]\<rparr>
     \<and> tile_cycle example_cfg query_all (store [record_A])
          \<lparr>previousCrc = 2674646733, effects = [UrlsUpdated]\<rparr>
         = Inr \<lparr>previousCrc = 2674646733, effects = [UrlsUpdated]\<rparr>
     \<and> game_cycle example_cfg query_all (store [record_A], [])
          \<lparr>previousCrc = 2674646733, effects = [UrlsUpdated]\<rparr>
         = Inr \<lparr>previousCrc = 2674646733, effects = [UrlsUpdated]\<rparr>"
proof -
  obtain markers where
    fetch: "fetchClaimMarkers example_cfg (store [record_A]) = Inr (markers, 2674646733)"
    using fetch_store_A by blast
  have "tile_cycle example_cfg query_all (store [record_A])
          \<lparr>previousCrc = 2674646733, effects = [UrlsUpdated]\<rparr>
         = Inr \<lparr>previousCrc = 2674646733, effects = [UrlsUpdated]\<rparr>
     \<and> game_cycle example_cfg query_all (store [record_A], [])
          \<lparr>previousCrc = 2674646733, effects = [UrlsUpdated]\<rparr>
         = Inr \<lparr>previousCrc = 2674646733, effects = [UrlsUpdated]\<rparr>"
    using fetch
      worker_skips_unchanged_snapshot [of example_cfg "store [record_A]" markers 2674646733
        "\<lparr>previousCrc = 2674646733, effects = [UrlsUpdated]\<rparr>" query_all "[]" "[]"]
    by simp
  with fetch show ?thesis by auto
qed


section \<open>The tile pyramid\<close>

lemma wrap_int_id: "- (2 ^ 63) \<le> v \<Longrightarrow> v < 2 ^ 63 \<Longrightarrow> wrap_int v = v"
  by (simp add: wrap_int_def)

lemma go_div_pos:
  assumes "0 \<le> a" "a < 2 ^ 63" "0 < b"
  shows "go_div a b = Inr (a div b)"
proof -
  have "0 \<le> a div b" using assms by (simp add: pos_imp_zdiv_nonneg_iff)
  moreover have "a div b \<le> a"
    using zdiv_mono2 [of a 1 b] assms by simp
  ultimately have w: "wrap_int (a div b) = a div b"
    using assms by (intro wrap_int_id) auto
  have sg: "sgn a * sgn b * (\<bar>a\<bar> div \<bar>b\<bar>) = a div b"
    using assms by (cases "a = 0") (simp_all add: sgn_if)
  show ?thesis
    unfolding go_div_def sg w using assms(3) by simp
qed


lemma tile_arith:
  fixes T :: int
  assumes "0 < T" "z < M" "T * 2 ^ (M - 1) < 2 ^ 63"
  shows "M - 1 < 63"
    and "z < 63"
    and "(T * 2 ^ (M - 1)) div 2 ^ z = T * 2 ^ (M - 1 - z)"
    and "0 < (T * 2 ^ (M - 1)) div 2 ^ z"
    and "((T * 2 ^ (M - 1)) div 2 ^ z) * 2 ^ z = T * 2 ^ (M - 1)"
proof -
  have "(2 :: int) ^ (M - 1) \<le> T * 2 ^ (M - 1)"
    using assms(1) by (simp add: mult_le_cancel_right1)
  then have "(2 :: int) ^ (M - 1) < 2 ^ 63"
    using assms(3) by linarith
  then show m: "M - 1 < 63"
    by (rule power_less_imp_less_exp [rotated]) simp
  then show "z < 63" using assms(2) by linarith
  have split: "(2 :: int) ^ (M - 1) = 2 ^ (M - 1 - z) * 2 ^ z"
    using assms(2) by (simp flip: power_add)
  then show d: "(T * 2 ^ (M - 1)) div 2 ^ z = T * 2 ^ (M - 1 - z)"
    by simp
  show "0 < (T * 2 ^ (M - 1)) div 2 ^ z"
    unfolding d using assms(1) by simp
  show "((T * 2 ^ (M - 1)) div 2 ^ z) * 2 ^ z = T * 2 ^ (M - 1)"
    unfolding d split by simp
qed

lemma find_tile:
  fixes v :: int
  assumes "0 < v"
  shows "t * v \<le> p \<and> p \<le> t * v + v - 1 \<longleftrightarrow> t = p div v"
proof
  assume a: "t * v \<le> p \<and> p \<le> t * v + v - 1"
  have "p div v = t"
  proof (rule int_div_pos_eq)
    show "p = v * t + (p - t * v)" by (simp add: mult.commute)
    show "0 \<le> p - t * v" using a by simp
    show "p - t * v < v" using a by simp
  qed
  then show "t = p div v" by simp
next
  assume t: "t = p div v"
  have "p = p div v * v + p mod v" by simp
  moreover have "0 \<le> p mod v" "p mod v < v" using assms by simp_all
  ultimately show "t * v \<le> p \<and> p \<le> t * v + v - 1"
    unfolding t by linarith
qed


lemma uint_pred_pos: "0 < M \<Longrightarrow> M < 2 ^ 64 \<Longrightarrow> uint_pred M = M - 1"
proof -
  assume a: "0 < M" "M < 2 ^ 64"
  have "M + (2 ^ 64 - 1) = (M - 1) + 1 * 2 ^ 64"
    using a(1) by simp
  then have "(M + (2 ^ 64 - 1)) mod 2 ^ 64 = (M - 1) mod 2 ^ 64"
    by (metis mod_mult_self1)
  also have "\<dots> = M - 1"
    using a(2) by simp
  finally show ?thesis by (simp only: uint_pred_def)
qed

lemma go_shl1_small: "s < 63 \<Longrightarrow> go_shl1 s = 2 ^ s"
proof -
  assume "s < 63"
  then have "(2 :: int) ^ s < 2 ^ 63"
    by (intro power_strict_increasing) simp_all
  moreover have "- (2 ^ 63) \<le> (2 :: int) ^ s"
    by (rule order_trans [of _ 0]) simp_all
  ultimately show ?thesis
    unfolding go_shl1_def by (rule wrap_int_id [rotated])
qed

lemma tile_options_expected:
  assumes T: "0 < TileSize cfg" and z: "z < MaxZoom cfg" and E: "virtual_extent cfg < 2 ^ 63"
    and tx: "tx < 2 ^ z" and ty: "ty < 2 ^ z"
  shows "tile_options
           \<lparr>filename = NoName, actualPixels = TileSize cfg, virtualPixels = virtual_extent cfg,
            virtualClip = \<lparr>Min_X = 0, Min_Y = 0, Max_X = 0, Max_Y = 0\<rparr>\<rparr>
           z (pixels_per_tile cfg z) (int tx) (int ty)
         = expected_tile cfg z tx ty"
proof -
  define v where "v = pixels_per_tile cfg z"
  have E': "TileSize cfg * 2 ^ (MaxZoom cfg - 1) < 2 ^ 63"
    using E by (simp only: virtual_extent_def)
  have v_pos: "0 < v"
    using tile_arith(4) [OF T z E'] by (simp only: v_def pixels_per_tile_def virtual_extent_def)
  have v_total: "v * 2 ^ z = virtual_extent cfg"
    using tile_arith(5) [OF T z E'] by (simp only: v_def pixels_per_tile_def virtual_extent_def)
  have bound: "int t * v + v \<le> virtual_extent cfg" if "t < 2 ^ z" for t :: nat
  proof -
    have "int t < 2 ^ z"
      using that by (metis of_nat_less_iff of_nat_numeral of_nat_power)
    then have "int t + 1 \<le> 2 ^ z"
      by linarith
    then have "(int t + 1) * v \<le> 2 ^ z * v"
      using v_pos by (intro mult_right_mono) simp_all
    then show ?thesis by (simp add: algebra_simps flip: v_total)
  qed
  have lo: "0 \<le> int t * v" for t :: nat
    using v_pos by simp
  have mul: "go_mul (int t) v = int t * v" if "t < 2 ^ z" for t :: nat
    unfolding go_mul_def using bound [OF that] lo [of t] v_pos E
    by (intro wrap_int_id) linarith+
  have add: "go_add (int t * v) v = int t * v + v" if "t < 2 ^ z" for t :: nat
    unfolding go_add_def using bound [OF that] lo [of t] v_pos E
    by (intro wrap_int_id) linarith+
  have sub: "go_sub (int t * v + v) 1 = int t * v + v - 1" if "t < 2 ^ z" for t :: nat
    unfolding go_sub_def using bound [OF that] lo [of t] v_pos E
    by (intro wrap_int_id) linarith+
  have "\<not> int tx * v > int tx * v + v - 1" "\<not> int ty * v > int ty * v + v - 1"
    using v_pos by simp_all
  then show ?thesis
    by (simp add: tile_options_def expected_tile_def Let_def Rect_def mul add sub tx ty
        flip: v_def)
qed

lemma tiles_options_expected:
  assumes T: "0 < TileSize cfg" and z: "z < MaxZoom cfg" and E: "virtual_extent cfg < 2 ^ 63"
  shows "tiles_options cfg z = Inr (expected_tiles cfg z)"
proof -
  have E': "TileSize cfg * 2 ^ (MaxZoom cfg - 1) < 2 ^ 63"
    using E by (simp only: virtual_extent_def)
  have M: "MaxZoom cfg - 1 < 63" and z63: "z < 63"
    using tile_arith(1,2) [OF T z E'] by simp_all
  have "uint_pred (MaxZoom cfg) = MaxZoom cfg - 1"
    using z M by (intro uint_pred_pos) simp_all
  then have shl: "go_shl1 (uint_pred (MaxZoom cfg)) = 2 ^ (MaxZoom cfg - 1)"
    using M by (simp only: go_shl1_small)
  have E0: "0 \<le> virtual_extent cfg"
    using T by (simp add: virtual_extent_def)
  have ext: "go_mul (TileSize cfg) (2 ^ (MaxZoom cfg - 1)) = virtual_extent cfg"
    unfolding go_mul_def virtual_extent_def [symmetric] using E E0
    by (intro wrap_int_id) linarith+
  have tiles: "go_shl1 z = 2 ^ z"
    using z63 by (rule go_shl1_small)
  have dv: "go_div (virtual_extent cfg) (2 ^ z) = Inr (pixels_per_tile cfg z)"
    unfolding pixels_per_tile_def using E0 E by (intro go_div_pos) simp_all
  have n: "nat (2 ^ z) = 2 ^ z"
    by (simp add: nat_power_eq)
  have "map (\<lambda>tileX. map (\<lambda>tileY. tile_options
           \<lparr>filename = NoName, actualPixels = TileSize cfg, virtualPixels = virtual_extent cfg,
            virtualClip = \<lparr>Min_X = 0, Min_Y = 0, Max_X = 0, Max_Y = 0\<rparr>\<rparr>
           z (pixels_per_tile cfg z) (int tileX) (int tileY)) [0..<2 ^ z]) [0..<2 ^ z]
        = map (\<lambda>tileX. map (\<lambda>tileY. expected_tile cfg z tileX tileY) [0..<2 ^ z]) [0..<2 ^ z]"
    by (intro map_cong refl) (simp add: tile_options_expected [OF T z E])
  then show ?thesis
    unfolding tiles_options_def Let_def shl ext tiles dv n expected_tiles_def
    by (simp only: sum.case MapOptions.simps dv)
qed


lemma virtualPixelsPerServer_Inr:
  "servers cfg \<noteq> 0 \<Longrightarrow> \<exists>vPPS. virtualPixelsPerServer cfg opts = Inr vPPS"
  by (auto simp: virtualPixelsPerServer_def servers_def go_div_def split: if_splits)

lemma createQuadTree_Inr:
  "servers cfg \<noteq> 0 \<Longrightarrow> \<exists>qt. createQuadTree cfg opts markers = Inr qt"
  using virtualPixelsPerServer_Inr [of cfg opts]
  by (auto simp: createQuadTree_def Let_def)

lemma generateImage_Inr:
  "servers cfg \<noteq> 0 \<Longrightarrow>
     \<exists>circles. generateImage cfg Query opts qt =
       Inr \<lparr>image_file = filename opts, image_pixels = actualPixels opts,
            image_circles = circles\<rparr>"
  using virtualPixelsPerServer_Inr [of cfg opts]
  by (auto simp: generateImage_def Let_def)

lemma sequence_results_map_Inr:
  "(\<forall>x \<in> set xs. \<exists>r. f x = Inr r) \<Longrightarrow>
     \<exists>rs. sequence_results (map f xs) = Inr rs \<and> list_all2 (\<lambda>x r. f x = Inr r) xs rs"
proof (induction xs)
  case Nil
  show ?case by simp
next
  case (Cons x xs)
  then obtain r rs where "f x = Inr r" "sequence_results (map f xs) = Inr rs"
    "list_all2 (\<lambda>x r. f x = Inr r) xs rs"
    by auto
  then show ?case by simp
qed

lemma length_expected_tiles: "length (expected_tiles cfg z) = 2 ^ z * 2 ^ z"
  by (simp add: expected_tiles_def length_concat comp_def sum_list_triv)

lemma generateTiles_images:
  assumes T: "0 < TileSize cfg" and z: "z < MaxZoom cfg" and E: "virtual_extent cfg < 2 ^ 63"
    and S: "servers cfg \<noteq> 0"
  shows "\<exists>qt images.
           generateTiles cfg Query z markers = Inr images
           \<and> length images = 2 ^ z * 2 ^ z
           \<and> list_all2 (\<lambda>opts image. generateImage cfg Query opts qt = Inr image
                                      \<and> image_file image = filename opts
                                      \<and> image_pixels image = actualPixels opts)
                (expected_tiles cfg z) images"
proof -
  obtain qt where qt: "createQuadTree cfg
      \<lparr>filename = NoName, actualPixels = TileSize cfg,
       virtualPixels = go_mul (TileSize cfg) (go_shl1 (uint_pred (MaxZoom cfg))),
       virtualClip = \<lparr>Min_X = 0, Min_Y = 0, Max_X = 0, Max_Y = 0\<rparr>\<rparr> markers = Inr qt"
    using createQuadTree_Inr [OF S] by blast
  have "\<forall>opts \<in> set (expected_tiles cfg z). \<exists>r. generateImage cfg Query opts qt = Inr r"
    using generateImage_Inr [OF S] by blast
  then obtain images where
    seq: "sequence_results (map (\<lambda>opts. generateImage cfg Query opts qt) (expected_tiles cfg z))
            = Inr images"
    and all: "list_all2 (\<lambda>opts image. generateImage cfg Query opts qt = Inr image)
                (expected_tiles cfg z) images"
    using sequence_results_map_Inr
      [of "expected_tiles cfg z" "\<lambda>opts. generateImage cfg Query opts qt"] by blast
  have gen: "generateTiles cfg Query z markers = Inr images"
    by (simp add: generateTiles_def Let_def qt tiles_options_expected [OF T z E] seq)
  have len: "length images = 2 ^ z * 2 ^ z"
    using all by (simp add: list_all2_lengthD [symmetric] length_expected_tiles)
  have "list_all2 (\<lambda>opts image. generateImage cfg Query opts qt = Inr image
                                  \<and> image_file image = filename opts
                                  \<and> image_pixels image = actualPixels opts)
          (expected_tiles cfg z) images"
  proof (rule list_all2_mono [OF all])
    fix opts image
    assume "generateImage cfg Query opts qt = Inr image"
    with generateImage_Inr [OF S, of Query opts qt]
    show "generateImage cfg Query opts qt = Inr image \<and> image_file image = filename opts
            \<and> image_pixels image = actualPixels opts"
      by auto
  qed
  with gen len show ?thesis by blast
qed

lemma tiles_cover:
  assumes T: "0 < TileSize cfg" and z: "z < MaxZoom cfg" and E: "virtual_extent cfg < 2 ^ 63"
    and px: "0 \<le> px" "px < virtual_extent cfg" and py: "0 \<le> py" "py < virtual_extent cfg"
  shows "\<exists>tileX tileY. tileX < 2 ^ z \<and> tileY < 2 ^ z
           \<and> in_rectangle (virtualClip (expected_tile cfg z tileX tileY)) px py"
proof -
  define v where "v = pixels_per_tile cfg z"
  have E': "TileSize cfg * 2 ^ (MaxZoom cfg - 1) < 2 ^ 63"
    using E by (simp only: virtual_extent_def)
  have v_pos: "0 < v"
    using tile_arith(4) [OF T z E'] by (simp only: v_def pixels_per_tile_def virtual_extent_def)
  have v_total: "v * 2 ^ z = virtual_extent cfg"
    using tile_arith(5) [OF T z E'] by (simp only: v_def pixels_per_tile_def virtual_extent_def)
  have index: "\<exists>t :: nat. t < 2 ^ z \<and> int t * v \<le> p \<and> p \<le> int t * v + v - 1"
    if "0 \<le> p" "p < virtual_extent cfg" for p
  proof -
    have in_tile: "(p div v) * v \<le> p \<and> p \<le> (p div v) * v + v - 1"
      using find_tile [OF v_pos, of "p div v" p] by simp
    have nonneg: "0 \<le> p div v"
      using that(1) v_pos by (simp add: pos_imp_zdiv_nonneg_iff)
    have "p div v < 2 ^ z"
    proof (rule ccontr)
      assume "\<not> p div v < 2 ^ z"
      then have "2 ^ z * v \<le> (p div v) * v"
        using v_pos by (intro mult_right_mono) simp_all
      then show False
        using in_tile that(2) v_total by (simp add: mult.commute)
    qed
    then have "nat (p div v) < 2 ^ z"
      using nonneg by (simp add: nat_less_iff)
    moreover have "int (nat (p div v)) = p div v"
      using nonneg by simp
    ultimately show ?thesis
      using in_tile by metis
  qed
  obtain tx :: nat where tx: "tx < 2 ^ z" "int tx * v \<le> px" "px \<le> int tx * v + v - 1"
    using index [OF px] by blast
  obtain ty :: nat where ty: "ty < 2 ^ z" "int ty * v \<le> py" "py \<le> int ty * v + v - 1"
    using index [OF py] by blast
  have "in_rectangle (virtualClip (expected_tile cfg z tx ty)) px py"
    using tx ty by (simp add: in_rectangle_def expected_tile_def flip: v_def)
  with tx(1) ty(1) show ?thesis by blast
qed

lemma tiles_disjoint:
  assumes T: "0 < TileSize cfg" and z: "z < MaxZoom cfg" and E: "virtual_extent cfg < 2 ^ 63"
    and a: "in_rectangle (virtualClip (expected_tile cfg z tileX tileY)) px py"
    and b: "in_rectangle (virtualClip (expected_tile cfg z tileX' tileY')) px py"
  shows "tileX = tileX' \<and> tileY = tileY'"
proof -
  define v where "v = pixels_per_tile cfg z"
  have E': "TileSize cfg * 2 ^ (MaxZoom cfg - 1) < 2 ^ 63"
    using E by (simp only: virtual_extent_def)
  have v_pos: "0 < v"
    using tile_arith(4) [OF T z E'] by (simp only: v_def pixels_per_tile_def virtual_extent_def)
  have index: "int tx = px div v \<and> int ty = py div v"
    if "in_rectangle (virtualClip (expected_tile cfg z tx ty)) px py" for tx ty
  proof -
    have "int tx * v \<le> px \<and> px \<le> int tx * v + v - 1"
      and "int ty * v \<le> py \<and> py \<le> int ty * v + v - 1"
      using that by (simp_all add: in_rectangle_def expected_tile_def flip: v_def)
    then show ?thesis
      by (simp only: find_tile [OF v_pos])
  qed
  from index [OF a] index [OF b] show ?thesis by simp
qed


text \<open>
  Claim C8: for a positive tile size, a zoom level \<open>z\<close> below \<^verbatim>\<open>MaxZoom\<close>, an extent
  \<open>tileSize * 2 ^ (maxZoom - 1)\<close> within the range of \<^verbatim>\<open>int\<close> and a server grid that is not
  empty, \<^verbatim>\<open>generateTiles\<close> calls \<^verbatim>\<open>generateImage\<close> once for each of the \<open>2 ^ z \<times> 2 ^ z\<close>
  tiles, with the actual size \<open>tileSize\<close>, the same extent at every zoom level and the clip
  rectangle \<open>[tileX * v, tileX * v + v - 1] \<times> [tileY * v, tileY * v + v - 1]\<close>, where
  \<open>v = extent / 2 ^ z\<close>. The rectangles cover the extent and no two of them overlap.
\<close>

theorem generateTiles_pyramid:
  assumes "0 < TileSize cfg" and "z < MaxZoom cfg" and "virtual_extent cfg < 2 ^ 63"
    and "servers cfg \<noteq> 0"
  shows "tiles_options cfg z = Inr (expected_tiles cfg z)
    \<and> (\<exists>qt images.
          generateTiles cfg Query z markers = Inr images
          \<and> length images = 2 ^ z * 2 ^ z
          \<and> list_all2 (\<lambda>opts image. generateImage cfg Query opts qt = Inr image
                                     \<and> image_file image = filename opts
                                     \<and> image_pixels image = actualPixels opts)
               (expected_tiles cfg z) images)
    \<and> list_all (\<lambda>opts. actualPixels opts = TileSize cfg
                           \<and> virtualPixels opts = virtual_extent cfg) (expected_tiles cfg z)
    \<and> pixels_per_tile cfg z * 2 ^ z = virtual_extent cfg
    \<and> (\<forall>px py. 0 \<le> px \<and> px < virtual_extent cfg \<and> 0 \<le> py \<and> py < virtual_extent cfg \<longrightarrow>
          (\<exists>tileX tileY. tileX < 2 ^ z \<and> tileY < 2 ^ z
             \<and> in_rectangle (virtualClip (expected_tile cfg z tileX tileY)) px py))
    \<and> (\<forall>tileX tileY tileX' tileY' px py.
          in_rectangle (virtualClip (expected_tile cfg z tileX tileY)) px py
          \<and> in_rectangle (virtualClip (expected_tile cfg z tileX' tileY')) px py \<longrightarrow>
          tileX = tileX' \<and> tileY = tileY')"
proof -
  have "TileSize cfg * 2 ^ (MaxZoom cfg - 1) < 2 ^ 63"
    using assms(3) by (simp only: virtual_extent_def)
  then have "pixels_per_tile cfg z * 2 ^ z = virtual_extent cfg"
    using tile_arith(5) [OF assms(1,2)] by (simp only: pixels_per_tile_def virtual_extent_def)
  moreover note tiles_options_expected [OF assms(1-3)]
    generateTiles_images [OF assms, of Query markers]
  moreover have "list_all (\<lambda>opts. actualPixels opts = TileSize cfg
                           \<and> virtualPixels opts = virtual_extent cfg) (expected_tiles cfg z)"
    by (auto simp: list_all_iff expected_tiles_def expected_tile_def)
  moreover have "\<forall>px py. 0 \<le> px \<and> px < virtual_extent cfg \<and> 0 \<le> py \<and> py < virtual_extent cfg \<longrightarrow>
          (\<exists>tileX tileY. tileX < 2 ^ z \<and> tileY < 2 ^ z
             \<and> in_rectangle (virtualClip (expected_tile cfg z tileX tileY)) px py)"
    using tiles_cover [OF assms(1-3)] by blast
  moreover have "\<forall>tileX tileY tileX' tileY' px py.
          in_rectangle (virtualClip (expected_tile cfg z tileX tileY)) px py
          \<and> in_rectangle (virtualClip (expected_tile cfg z tileX' tileY')) px py \<longrightarrow>
          tileX = tileX' \<and> tileY = tileY'"
    using tiles_disjoint [OF assms(1-3)] by blast
  ultimately show ?thesis by blast
qed

lemma expected_tiles_example:
  "map virtualClip (expected_tiles (example_cfg\<lparr>MaxZoom := 3\<rparr>) 1) =
     [\<lparr>Min_X = 0, Min_Y = 0, Max_X = 511, Max_Y = 511\<rparr>,
      \<lparr>Min_X = 0, Min_Y = 512, Max_X = 511, Max_Y = 1023\<rparr>,
      \<lparr>Min_X = 512, Min_Y = 0, Max_X = 1023, Max_Y = 511\<rparr>,
      \<lparr>Min_X = 512, Min_Y = 512, Max_X = 1023, Max_Y = 1023\<rparr>]"
proof -
  have "[0..<2 ^ 1] = [0, Suc 0]"
    by (simp add: upt_rec)
  then show ?thesis
    by (simp add: expected_tiles_def expected_tile_def pixels_per_tile_def virtual_extent_def
        example_cfg_def)
qed

text \<open>
  Zoom level 1 of three over one server cell: four tiles of 512 virtual pixels a side.
\<close>

theorem generateTiles_pyramid_witness:
  "0 < TileSize (example_cfg\<lparr>MaxZoom := 3\<rparr>)
   \<and> 1 < MaxZoom (example_cfg\<lparr>MaxZoom := 3\<rparr>)
   \<and> virtual_extent (example_cfg\<lparr>MaxZoom := 3\<rparr>) < 2 ^ 63
   \<and> servers (example_cfg\<lparr>MaxZoom := 3\<rparr>) \<noteq> 0
   \<and> tiles_options (example_cfg\<lparr>MaxZoom := 3\<rparr>) 1
       = Inr (expected_tiles (example_cfg\<lparr>MaxZoom := 3\<rparr>) 1)
   \<and> (\<exists>images. generateTiles (example_cfg\<lparr>MaxZoom := 3\<rparr>) query_all 1 [] = Inr images
         \<and> length images = 4)
   \<and> pixels_per_tile (example_cfg\<lparr>MaxZoom := 3\<rparr>) 1 = 512
   \<and> virtual_extent (example_cfg\<lparr>MaxZoom := 3\<rparr>) = 1024"
proof -
  have h: "0 < TileSize (example_cfg\<lparr>MaxZoom := 3\<rparr>)"
    "1 < MaxZoom (example_cfg\<lparr>MaxZoom := 3\<rparr>)"
    "virtual_extent (example_cfg\<lparr>MaxZoom := 3\<rparr>) < 2 ^ 63"
    "servers (example_cfg\<lparr>MaxZoom := 3\<rparr>) \<noteq> 0"
    by (simp_all add: example_cfg_def virtual_extent_def servers_def)
  have v: "pixels_per_tile (example_cfg\<lparr>MaxZoom := 3\<rparr>) 1 = 512"
    "virtual_extent (example_cfg\<lparr>MaxZoom := 3\<rparr>) = 1024"
    by (simp_all add: example_cfg_def pixels_per_tile_def virtual_extent_def)
  from generateTiles_pyramid [OF h, of query_all "[]"]
  obtain images where "tiles_options (example_cfg\<lparr>MaxZoom := 3\<rparr>) 1
       = Inr (expected_tiles (example_cfg\<lparr>MaxZoom := 3\<rparr>) 1)"
    and "generateTiles (example_cfg\<lparr>MaxZoom := 3\<rparr>) query_all 1 [] = Inr images"
    and "length images = 2 ^ 1 * 2 ^ 1"
    by blast
  with h v show ?thesis by simp
qed


section \<open>The gutter filter\<close>

lemma outside_gutter_iff:
  "\<not> outside_gutter r clip vb \<longleftrightarrow>
     real_of_int (Min_X clip) - r \<le> vb_x vb
     \<and> vb_x vb < real_of_int (Min_X clip) + real_of_int (Max_X clip) + r
     \<and> real_of_int (Min_Y clip) - r \<le> vb_y vb
     \<and> vb_y vb < real_of_int (Min_Y clip) + real_of_int (Max_Y clip) + r"
  by (auto simp: outside_gutter_def clip_tX_def clip_tY_def)

lemma gutter_filter_at_origin:
  assumes "Min_X clip = 0" and "Min_Y clip = 0"
    and "vb_x vb \<noteq> real_of_int (Max_X clip) + r" and "vb_y vb \<noteq> real_of_int (Max_Y clip) + r"
  shows "\<not> outside_gutter r clip vb \<longleftrightarrow> in_gutter_window r clip vb"
  using assms by (auto simp: outside_gutter_iff in_gutter_window_def)

lemma in_window_passes_filter:
  assumes "0 \<le> Min_X clip" and "0 \<le> Min_Y clip"
    and "in_gutter_window r clip vb"
    and "vb_x vb \<noteq> real_of_int (Max_X clip) + r" and "vb_y vb \<noteq> real_of_int (Max_Y clip) + r"
  shows "\<not> outside_gutter r clip vb"
  using assms by (auto simp: outside_gutter_iff in_gutter_window_def)

lemma exact_query_in_window:
  assumes "boxes_meet (BoundingBox_of vb) (query_box clip)" and "vb_radius vb = r"
  shows "in_gutter_window r clip vb"
  using assms by (auto simp: boxes_meet_def BoundingBox_of_def query_box_def in_gutter_window_def)

lemma example_tile: "expected_tile example_pyramid 2 1 0 =
  \<lparr>filename = TilePng 2 1 0, actualPixels = 256, virtualPixels = 1024,
   virtualClip = \<lparr>Min_X = 256, Min_Y = 0, Max_X = 511, Max_Y = 255\<rparr>\<rparr>"
  by (simp add: expected_tile_def example_pyramid_def example_cfg_def pixels_per_tile_def
      virtual_extent_def)

lemma example_tree:
  "createQuadTree example_pyramid (expected_tile example_pyramid 2 1 0) [example_marker]
     = Inr [\<lparr>vb_x = 3072 / 5, vb_y = 1024 / 5, vb_radius = 384 / 25,
             vb_marker = example_marker\<rparr>]"
  unfolding example_tile
  by (simp add: createQuadTree_def virtualPixelsPerServer_def go_div_def
      wrap_int_def example_pyramid_def example_cfg_def example_marker_def Let_def)


lemma boundary_marker_in_both_tiles:
  assumes "0 \<le> a" and "a \<le> b" and "0 \<le> c" and "0 \<le> e"
    and "real_of_int b + 1 - r \<le> vb_x vb" and "vb_x vb < real_of_int b + r"
    and "real_of_int c - r \<le> vb_y vb" and "vb_y vb < real_of_int d + r"
  shows "\<not> outside_gutter r \<lparr>Min_X = a, Min_Y = c, Max_X = b, Max_Y = d\<rparr> vb
         \<and> \<not> outside_gutter r \<lparr>Min_X = b + 1, Min_Y = c, Max_X = e, Max_Y = d\<rparr> vb"
  using assms by (auto simp: outside_gutter_iff)

section \<open>The claims of the world snapshot\<close>

lemma processed_snoc:
  "processed r clip (xs @ [x]) =
     processed r clip xs @ (if outside_gutter r clip x then [] else [x])"
  by (simp add: processed_def)

lemma collect_claims_snoc:
  "collect_claims r vToA clip (xs @ [x]) = add_claim r vToA clip (collect_claims r vToA clip xs) x"
  by (simp add: collect_claims_def)

lemma owner_record_snoc_other:
  "owner_of x \<noteq> k \<Longrightarrow> owner_record vToA clip (xs @ [x]) k = owner_record vToA clip xs k"
  by (simp add: owner_record_def)

lemma owner_record_absent:
  "k \<notin> owner_of ` set xs \<Longrightarrow>
     owner_record vToA clip xs k = \<lparr>TribeOrPlayerID = k, LandClaims = [], WaterClaims = []\<rparr>"
  by (auto simp: owner_record_def filter_empty_conv)

lemma add_claim_other:
  "k \<noteq> owner_of x \<Longrightarrow> add_claim r vToA clip IDMap x k = IDMap k"
  by (simp add: add_claim_def Let_def owner_of_def)

lemma add_claim_owner:
  assumes "\<not> outside_gutter r clip x"
    and "IDMap (owner_of x) =
           (if owner_of x \<in> owner_of ` set prev
            then Some (owner_record vToA clip prev (owner_of x)) else None)"
  shows "add_claim r vToA clip IDMap x (owner_of x)
           = Some (owner_record vToA clip (prev @ [x]) (owner_of x))"
proof (cases "owner_of x \<in> owner_of ` set prev")
  case True
  with assms show ?thesis
    by (simp add: add_claim_def Let_def owner_record_def owner_of_def)
next
  case False
  then have "\<forall>vb \<in> set prev. owner_of vb \<noteq> owner_of x"
    by (metis imageI)
  then have "filter (\<lambda>vb. owner_of vb = owner_of x \<and> markerType (vb_marker vb) = t) prev = []"
    for t
    by (simp add: filter_empty_conv)
  with False assms show ?thesis
    by (simp add: add_claim_def Let_def owner_record_def owner_of_def)
qed

lemma collect_claims_lookup:
  "collect_claims r vToA clip returned k =
     (if k \<in> owner_of ` set (processed r clip returned)
      then Some (owner_record vToA clip (processed r clip returned) k) else None)"
proof (induction returned arbitrary: k rule: rev_induct)
  case Nil
  show ?case by (simp add: collect_claims_def processed_def)
next
  case (snoc x xs)
  show ?case
  proof (cases "outside_gutter r clip x")
    case True
    with snoc show ?thesis
      by (simp add: collect_claims_snoc processed_snoc add_claim_def)
  next
    case False
    show ?thesis
    proof (cases "k = owner_of x")
      case True
      have "collect_claims r vToA clip (xs @ [x]) (owner_of x) =
              Some (owner_record vToA clip (processed r clip xs @ [x]) (owner_of x))"
        unfolding collect_claims_snoc using False snoc [of "owner_of x"]
        by (rule add_claim_owner)
      with False True show ?thesis
        by (simp add: processed_snoc)
    next
      case other: False
      then have "collect_claims r vToA clip (xs @ [x]) k = collect_claims r vToA clip xs k"
        by (simp add: collect_claims_snoc add_claim_other)
      with False other snoc [of k] show ?thesis
        by (simp add: processed_snoc owner_record_snoc_other)
    qed
  qed
qed

lemma uint16_of_float_wraps:
  assumes "- (2 ^ 31) - 1 < v" and "v < 2 ^ 31"
  shows "uint (uint16_of_float v) = trunc_toward_zero v mod 2 ^ 16"
  using assms by (simp add: uint16_of_float_def uint_word_of_int take_bit_eq_mod)

text \<open>
  Claim C9: an entity that passes the gutter filter gets its claim whatever its pixel
  coordinates are. The coordinates go through \<^verbatim>\<open>uint16\<close> unchecked: a value within the
  range of a 32-bit integer is cut to its integer part and reduced modulo \<open>2 ^ 16\<close>.
\<close>

theorem no_range_check_before_uint16:
  assumes "vb \<in> set returned" and "\<not> outside_gutter r clip vb"
  shows "(\<exists>Entry. collect_claims r vToA clip returned (tribeOrOwnerID (vb_marker vb)) = Some Entry
            \<and> (markerType (vb_marker vb) = 0 \<longrightarrow>
                 \<lparr>X = uint16_of_float (clip_tX clip vb * vToA),
                  Y = uint16_of_float (clip_tY clip vb * vToA)\<rparr> \<in> set (LandClaims Entry))
            \<and> (markerType (vb_marker vb) = 1 \<longrightarrow>
                 \<lparr>X = uint16_of_float (clip_tX clip vb * vToA),
                  Y = uint16_of_float (clip_tY clip vb * vToA)\<rparr> \<in> set (WaterClaims Entry)))
         \<and> (\<forall>v. - (2 ^ 31) - 1 < v \<and> v < 2 ^ 31 \<longrightarrow>
               uint (uint16_of_float v) = trunc_toward_zero v mod 2 ^ 16)"
proof -
  have p: "vb \<in> set (processed r clip returned)"
    using assms by (simp add: processed_def)
  then have "owner_of vb \<in> owner_of ` set (processed r clip returned)"
    by (rule imageI)
  then have look: "collect_claims r vToA clip returned (tribeOrOwnerID (vb_marker vb))
      = Some (owner_record vToA clip (processed r clip returned) (owner_of vb))"
    by (simp add: collect_claims_lookup flip: owner_of_def)
  have entry: "claim_entry vToA clip vb =
      \<lparr>X = uint16_of_float (clip_tX clip vb * vToA), Y = uint16_of_float (clip_tY clip vb * vToA)\<rparr>"
    by (simp add: claim_entry_def)
  have "markerType (vb_marker vb) = 0 \<longrightarrow> claim_entry vToA clip vb
          \<in> set (LandClaims (owner_record vToA clip (processed r clip returned) (owner_of vb)))"
    using p by (auto simp: owner_record_def)
  moreover have "markerType (vb_marker vb) = 1 \<longrightarrow> claim_entry vToA clip vb
          \<in> set (WaterClaims (owner_record vToA clip (processed r clip returned) (owner_of vb)))"
    using p by (auto simp: owner_record_def)
  ultimately show ?thesis
    using look uint16_of_float_wraps by (simp add: entry)
qed

text \<open>
  A snapshot at 100000 pixels a side: the pixel coordinates 90000 and -1000 are stored as
  24464 and 64536.
\<close>

theorem no_range_check_before_uint16_witness:
  "\<lparr>vb_x = 90000, vb_y = - 1000, vb_radius = 1500, vb_marker = example_marker\<rparr>
     \<in> set [\<lparr>vb_x = 90000, vb_y = - 1000, vb_radius = 1500, vb_marker = example_marker\<rparr>]
   \<and> \<not> outside_gutter 1500 \<lparr>Min_X = 0, Min_Y = 0, Max_X = 99999, Max_Y = 99999\<rparr>
         \<lparr>vb_x = 90000, vb_y = - 1000, vb_radius = 1500, vb_marker = example_marker\<rparr>
   \<and> (\<exists>Entry. collect_claims 1500 1 \<lparr>Min_X = 0, Min_Y = 0, Max_X = 99999, Max_Y = 99999\<rparr>
                 [\<lparr>vb_x = 90000, vb_y = - 1000, vb_radius = 1500, vb_marker = example_marker\<rparr>]
                 1000050001 = Some Entry
          \<and> \<lparr>X = 24464, Y = 64536\<rparr> \<in> set (LandClaims Entry))"
proof -
  have h: "\<lparr>vb_x = 90000, vb_y = - 1000, vb_radius = 1500, vb_marker = example_marker\<rparr>
     \<in> set [\<lparr>vb_x = 90000, vb_y = - 1000, vb_radius = 1500, vb_marker = example_marker\<rparr>]"
    "\<not> outside_gutter 1500 \<lparr>Min_X = 0, Min_Y = 0, Max_X = 99999, Max_Y = 99999\<rparr>
         \<lparr>vb_x = 90000, vb_y = - 1000, vb_radius = 1500, vb_marker = example_marker\<rparr>"
    by (simp_all add: outside_gutter_def clip_tX_def clip_tY_def)
  have "uint16_of_float 90000 = 24464" "uint16_of_float (- 1000) = 64536"
    by (simp_all add: uint16_of_float_def trunc_toward_zero_def)
  then show ?thesis
    using h no_range_check_before_uint16 [OF h, of 1]
    by (simp add: example_marker_def clip_tX_def clip_tY_def)
qed


section \<open>The bytes of the world snapshot\<close>

lemma ucast_drop_bit_byte:
  "(ucast (drop_bit (8 * k) v) :: 8 word) = word_of_nat (unat v div 256 ^ k mod 256)"
  for v :: "'a::len word"
proof -
  have "unat (ucast (drop_bit (8 * k) v) :: 8 word) = take_bit 8 (drop_bit (8 * k) (unat v))"
    by (simp add: unsigned_ucast_eq unat_drop_bit_eq del: drop_bit_eq_div)
  also have "\<dots> = unat v div 256 ^ k mod 256"
    by (simp add: take_bit_eq_mod drop_bit_eq_div power_mult)
  finally have "unat (ucast (drop_bit (8 * k) v) :: 8 word) = unat v div 256 ^ k mod 256" .
  moreover have "unat (word_of_nat (unat v div 256 ^ k mod 256) :: 8 word)
                   = unat v div 256 ^ k mod 256"
    by (simp add: unat_of_nat)
  ultimately show ?thesis
    by (simp only: word_unat_eq_iff)
qed

lemma le_bytes_ucast: "le_bytes n (unat v) = map (\<lambda>k. ucast (drop_bit (8 * k) v)) [0..<n]"
  for v :: "'a::len word"
  by (simp add: le_bytes_def ucast_drop_bit_byte)

lemma PutUint16_le: "PutUint16 v = le_bytes 2 (unat v)"
proof -
  have "[0..<2] = [0, 1]" by (simp add: upt_rec)
  then show ?thesis by (simp add: PutUint16_def le_bytes_ucast)
qed

lemma PutUint32_le: "PutUint32 v = le_bytes 4 (unat v)"
proof -
  have "[0..<4] = [0, 1, 2, 3]" by (simp add: upt_rec)
  then show ?thesis by (simp add: PutUint32_def le_bytes_ucast)
qed

lemma PutUint64_le: "PutUint64 v = le_bytes 8 (unat v)"
proof -
  have "[0..<8] = [0, 1, 2, 3, 4, 5, 6, 7]" by (simp add: upt_rec)
  then show ?thesis by (simp add: PutUint64_def le_bytes_ucast)
qed

lemma write_claims_format: "write_claims claims = concat (map claim_bytes claims)"
proof -
  have "claim_bytes = (\<lambda>Entry. PutUint16 (X Entry) @ PutUint16 (Y Entry))"
    by (intro ext) (simp add: claim_bytes_def PutUint16_le)
  then show ?thesis by (simp add: write_claims_def)
qed

lemma write_owner_format:
  assumes "length (LandClaims k) < 2 ^ 32" and "length (WaterClaims k) < 2 ^ 32"
  shows "write_owner k = owner_bytes k"
  using assms
  by (simp add: write_owner_def owner_bytes_def PutUint64_le PutUint32_le write_claims_format
      unat_of_nat)


lemma sort_Sort_sort_key:
  assumes "\<And>a b. lt a b \<longleftrightarrow> f a < (f b :: 'b :: linorder)"
  shows "sort_Sort lt xs = sort_key f xs"
proof -
  have "stable_insert lt = insort_key f"
    using stable_insert_insort [of lt f, OF assms] by (intro ext)
  then show ?thesis by (simp add: sort_Sort_def sort_key_def)
qed

lemma insort_key_map:
  assumes "\<And>k. f (g k) = k"
  shows "insort_key f (g x) (map g ys) = map g (insort x ys)"
  by (induction ys) (simp_all add: assms)

lemma sort_key_map_section:
  assumes "\<And>k. f (g k) = k"
  shows "sort_key f (map g ks) = map g (sort ks)"
  by (induction ks) (simp_all add: sort_key_simps insort_key_map [of f g, OF assms])

lemma sort_distinct_sorted_list_of_set:
  "distinct ks \<Longrightarrow> sort ks = sorted_list_of_set (set ks)"
  by (simp add: sorted_list_of_set_sort_remdups distinct_remdups_id)

lemma range_values_dom:
  assumes "set ks \<subseteq> dom m" and "\<And>k. k \<in> set ks \<Longrightarrow> m k = Some (g k)"
  shows "range_values m ks = map g ks"
  using assms by (induction ks) (auto simp: range_values_def List.map_filter_def)

lemma snapshot_IDMap_Inr:
  assumes "servers cfg \<noteq> 0"
  shows "snapshot_IDMap cfg Query opts qt =
           Inr (collect_claims (water_radius cfg opts) (virtualToActual opts) (virtualClip opts)
                  (Query qt (query_box (virtualClip opts))))"
proof -
  obtain vPPS where "virtualPixelsPerServer cfg opts = Inr vPPS"
    using virtualPixelsPerServer_Inr [OF assms] by blast
  then show ?thesis
    by (simp add: snapshot_IDMap_def water_radius_def Let_def)
qed

lemma snapshot_lookup:
  "collect_claims (water_radius cfg opts) (virtualToActual opts) (virtualClip opts)
     (Query qt (query_box (virtualClip opts))) k =
   (if k \<in> owner_of ` set (snapshot_entities cfg Query opts qt)
    then Some (owner_record (virtualToActual opts) (virtualClip opts)
                 (snapshot_entities cfg Query opts qt) k)
    else None)"
  by (simp add: collect_claims_lookup snapshot_entities_def)

lemma snapshot_dom:
  "dom (collect_claims (water_radius cfg opts) (virtualToActual opts) (virtualClip opts)
          (Query qt (query_box (virtualClip opts))))
     = owner_of ` set (snapshot_entities cfg Query opts qt)"
  by (auto simp: snapshot_lookup dom_def split: if_splits)

lemma snapshot_IDList:
  assumes "distinct ks" and "set ks = owner_of ` set (snapshot_entities cfg Query opts qt)"
  shows "sort_Sort ByTribeOrPlayerID_Less
           (range_values (collect_claims (water_radius cfg opts) (virtualToActual opts)
              (virtualClip opts) (Query qt (query_box (virtualClip opts)))) ks)
         = snapshot_owners cfg Query opts qt"
proof -
  define g where "g = owner_record (virtualToActual opts) (virtualClip opts)
                        (snapshot_entities cfg Query opts qt)"
  have key: "TribeOrPlayerID (g k) = k" for k
    by (simp add: g_def owner_record_def)
  have "range_values (collect_claims (water_radius cfg opts) (virtualToActual opts)
              (virtualClip opts) (Query qt (query_box (virtualClip opts)))) ks = map g ks"
    using assms(2) by (intro range_values_dom) (simp_all add: snapshot_dom snapshot_lookup g_def)
  moreover have "sort_Sort ByTribeOrPlayerID_Less (map g ks) = sort_key TribeOrPlayerID (map g ks)"
    by (rule sort_Sort_sort_key) (simp add: ByTribeOrPlayerID_Less_def)
  moreover have "sort_key TribeOrPlayerID (map g ks) = map g (sort ks)"
    by (rule sort_key_map_section) (rule key)
  moreover have "sort ks = sorted_list_of_set (owner_of ` set (snapshot_entities cfg Query opts qt))"
    using assms by (simp add: sort_distinct_sorted_list_of_set)
  ultimately show ?thesis
    by (simp add: snapshot_owners_def g_def)
qed

lemma snapshot_owner_ids:
  "map TribeOrPlayerID (snapshot_owners cfg Query opts qt)
     = sorted_list_of_set (owner_of ` set (snapshot_entities cfg Query opts qt))"
  by (simp add: snapshot_owners_def owner_record_def comp_def)

lemma length_snapshot_owners:
  "length (snapshot_owners cfg Query opts qt)
     = card (owner_of ` set (snapshot_entities cfg Query opts qt))"
  by (simp add: snapshot_owners_def)

lemma length_snapshot_entities:
  "length (snapshot_entities cfg Query opts qt) \<le> length (Query qt (query_box (virtualClip opts)))"
  by (simp add: snapshot_entities_def processed_def)

lemma card_snapshot_owners:
  "card (owner_of ` set (snapshot_entities cfg Query opts qt))
     \<le> length (Query qt (query_box (virtualClip opts)))"
proof -
  have "card (owner_of ` set (snapshot_entities cfg Query opts qt))
          \<le> card (set (snapshot_entities cfg Query opts qt))"
    by (rule card_image_le) simp
  also have "\<dots> \<le> length (snapshot_entities cfg Query opts qt)"
    by (rule card_length)
  finally show ?thesis
    using length_snapshot_entities [of cfg Query opts qt] by linarith
qed

lemma claims_snapshot_owners:
  assumes "k \<in> set (snapshot_owners cfg Query opts qt)"
  shows "length (LandClaims k) \<le> length (Query qt (query_box (virtualClip opts)))
         \<and> length (WaterClaims k) \<le> length (Query qt (query_box (virtualClip opts)))"
proof -
  have "length (filter P (snapshot_entities cfg Query opts qt))
          \<le> length (Query qt (query_box (virtualClip opts)))" for P
    using length_filter_le [of P "snapshot_entities cfg Query opts qt"]
      length_snapshot_entities [of cfg Query opts qt] by linarith
  with assms show ?thesis
    by (auto simp: snapshot_owners_def owner_record_def)
qed


lemma write_file_format:
  assumes "distinct ks" and "set ks = owner_of ` set (snapshot_entities cfg Query opts qt)"
    and "length (Query qt (query_box (virtualClip opts))) < 2 ^ 32"
  shows "write_file cfg opts
           (collect_claims (water_radius cfg opts) (virtualToActual opts) (virtualClip opts)
              (Query qt (query_box (virtualClip opts)))) ks
         = snapshot_format (nat (actualPixels opts mod 2 ^ 16)) (nat (GameSize cfg mod 2 ^ 16))
             (snapshot_owners cfg Query opts qt)"
proof -
  have u16: "PutUint16 (word_of_int i) = le_bytes 2 (nat (i mod 2 ^ 16))" for i
    by (simp add: PutUint16_le unsigned_of_int take_bit_eq_mod)
  have "card (owner_of ` set (snapshot_entities cfg Query opts qt)) < 2 ^ 32"
    using card_snapshot_owners [of cfg Query opts qt] assms(3) by linarith
  then have count: "PutUint32 (word_of_nat (card (owner_of ` set (snapshot_entities cfg Query opts qt))))
                 = le_bytes 4 (length (snapshot_owners cfg Query opts qt))"
    by (simp add: PutUint32_le unat_of_nat length_snapshot_owners)
  have "write_owner k = owner_bytes k" if "k \<in> set (snapshot_owners cfg Query opts qt)" for k
    using claims_snapshot_owners [OF that] assms(3)
    by (intro write_owner_format) linarith+
  then have owners: "map write_owner (snapshot_owners cfg Query opts qt)
                       = map owner_bytes (snapshot_owners cfg Query opts qt)"
    by simp
  have version: "PutUint16 FileVerison = le_bytes 2 2" "PutUint16 CompressionType = le_bytes 2 1"
    by (simp_all add: PutUint16_le FileVerison_def CompressionType_def)
  show ?thesis
    unfolding write_file_def Let_def snapshot_IDList [OF assms(1,2)] snapshot_dom u16 count owners
      version snapshot_format_def
    by (rule refl)
qed

text \<open>
  Claim C5: the bytes that \<^verbatim>\<open>generateCompressedFile\<close> writes are the layout of the
  specification, little-endian throughout: version 2, flag 1, the two resolutions as
  \<^verbatim>\<open>uint16\<close>, the number of owners, and one record per owner of an entity that passed
  the filter, in strictly ascending order of the owner ID, each with its ID, its counts,
  its land claims and its water claims. It holds for a server grid that is not empty and
  fewer than \<open>2 ^ 32\<close> entities, in whatever order \<^verbatim>\<open>range\<close> visits the map.
\<close>

theorem world_snapshot_format:
  assumes "servers cfg \<noteq> 0"
    and "distinct ks" and "set ks = owner_of ` set (snapshot_entities cfg Query opts qt)"
    and "length (Query qt (query_box (virtualClip opts))) < 2 ^ 32"
  shows "generateCompressedFile cfg Query opts qt ks =
           Inr (filename opts,
                snapshot_format (nat (actualPixels opts mod 2 ^ 16)) (nat (GameSize cfg mod 2 ^ 16))
                  (snapshot_owners cfg Query opts qt))
         \<and> map TribeOrPlayerID (snapshot_owners cfg Query opts qt)
             = sorted_list_of_set (owner_of ` set (snapshot_entities cfg Query opts qt))
         \<and> sorted_wrt (<) (map TribeOrPlayerID (snapshot_owners cfg Query opts qt))"
proof -
  have "generateCompressedFile cfg Query opts qt ks =
           Inr (filename opts,
                snapshot_format (nat (actualPixels opts mod 2 ^ 16)) (nat (GameSize cfg mod 2 ^ 16))
                  (snapshot_owners cfg Query opts qt))"
    by (simp add: generateCompressedFile_def snapshot_IDMap_Inr [OF assms(1)]
        write_file_format [OF assms(2-4)])
  moreover have "sorted_wrt (<) (map TribeOrPlayerID (snapshot_owners cfg Query opts qt))"
    by (simp add: snapshot_owner_ids)
  ultimately show ?thesis
    by (simp add: snapshot_owner_ids)
qed

lemma example_snapshot_entities:
  "snapshot_entities example_cfg query_all example_world example_entities = example_entities"
  by (simp add: snapshot_entities_def water_radius_def virtualPixelsPerServer_def go_div_def
      wrap_int_def example_cfg_def example_world_def example_entities_def query_all_def
      processed_def outside_gutter_def clip_tX_def clip_tY_def)

lemma example_snapshot_bytes:
  "generateCompressedFile example_cfg query_all example_world example_entities [1000050001, 7]
     = Inr (WorldMap,
            [2, 0, 1, 0, 0, 40, 0, 8, 2, 0, 0, 0,
             7, 0, 0, 0, 0, 0, 0, 0, 0, 0, 0, 0, 1, 0, 0, 0, 100, 0, 200, 0,
             81, 141, 155, 59, 0, 0, 0, 0, 1, 0, 0, 0, 0, 0, 0, 0, 0, 24, 0, 8])"
  by (simp add: generateCompressedFile_def snapshot_IDMap_def virtualPixelsPerServer_def
      go_div_def go_add_def go_sub_def wrap_int_def example_cfg_def example_world_def
      example_entities_def example_marker_def example_water_marker_def query_all_def
      collect_claims_def add_claim_def outside_gutter_def clip_tX_def clip_tY_def Let_def
      virtualToActual_def claim_entry_def uint16_of_float_def trunc_toward_zero_def
      write_file_def range_values_def List.map_filter_def sort_Sort_def
      ByTribeOrPlayerID_Less_def write_owner_def write_claims_def PutUint16_def PutUint32_def
      PutUint64_def FileVerison_def CompressionType_def)

text \<open>
  The snapshot of the two example markers, with the map visited in descending order of
  the owner ID.
\<close>

theorem world_snapshot_format_witness:
  "servers example_cfg \<noteq> 0
   \<and> distinct [1000050001, 7 :: 64 word]
   \<and> set [1000050001, 7]
       = owner_of ` set (snapshot_entities example_cfg query_all example_world example_entities)
   \<and> length (query_all example_entities (query_box (virtualClip example_world))) < 2 ^ 32
   \<and> generateCompressedFile example_cfg query_all example_world example_entities [1000050001, 7]
       = Inr (WorldMap,
              snapshot_format 10240 2048
                (snapshot_owners example_cfg query_all example_world example_entities))
   \<and> map TribeOrPlayerID (snapshot_owners example_cfg query_all example_world example_entities)
       = [7, 1000050001]"
proof -
  have h: "servers example_cfg \<noteq> 0"
    "distinct [1000050001, 7 :: 64 word]"
    "set [1000050001, 7]
       = owner_of ` set (snapshot_entities example_cfg query_all example_world example_entities)"
    "length (query_all example_entities (query_box (virtualClip example_world))) < 2 ^ 32"
    unfolding example_snapshot_entities
    by (simp_all add: servers_def example_cfg_def example_entities_def owner_of_def
        example_marker_def example_water_marker_def query_all_def)
  have f: "filename example_world = WorldMap"
    "nat (actualPixels example_world mod 2 ^ 16) = 10240"
    "nat (GameSize example_cfg mod 2 ^ 16) = 2048"
    by (simp_all add: example_world_def example_cfg_def)
  have s: "sorted_list_of_set
             (owner_of ` set (snapshot_entities example_cfg query_all example_world example_entities))
           = [7, 1000050001]"
    unfolding h(3) [symmetric] by (simp add: sorted_list_of_set_sort_remdups)
  from world_snapshot_format [OF h]
  have "generateCompressedFile example_cfg query_all example_world example_entities [1000050001, 7]
       = Inr (WorldMap,
              snapshot_format 10240 2048
                (snapshot_owners example_cfg query_all example_world example_entities))"
    and "map TribeOrPlayerID (snapshot_owners example_cfg query_all example_world example_entities)
       = [7, 1000050001]"
    unfolding f s by blast+
  with h show ?thesis by (intro conjI)
qed


section \<open>The generators on the example store\<close>

lemma ChannelBlocksPerDimension_5: "ChannelBlocksPerDimension = 5"
proof -
  have "5 \<le> sqrt 32" by (rule real_le_rsqrt) simp
  moreover have "sqrt 32 < 6" by (rule real_less_lsqrt) simp_all
  ultimately have "\<lfloor>sqrt 32\<rfloor> = 5" by (simp add: floor_eq_iff)
  then show ?thesis by (simp add: ChannelBlocksPerDimension_def BitsPerPixel_def)
qed

lemma game_options_example: "game_options example_cfg = example_world"
  by (simp add: game_options_def ChannelBlocksPerDimension_5 go_mul_def go_sub_def wrap_int_def
      servers_def example_cfg_def example_world_def Rect_def Let_def)

lemma createQuadTree_example:
  "createQuadTree example_cfg example_world [example_marker, example_water_marker]
     = Inr example_entities"
  by (simp add: createQuadTree_def virtualPixelsPerServer_def go_div_def wrap_int_def
      example_cfg_def example_world_def example_marker_def example_water_marker_def
      example_entities_def Let_def)

lemma generateGame_example:
  "generateGame example_cfg query_all [example_marker, example_water_marker] [1000050001, 7]
     = Inr (WorldMap,
            [2, 0, 1, 0, 0, 40, 0, 8, 2, 0, 0, 0,
             7, 0, 0, 0, 0, 0, 0, 0, 0, 0, 0, 0, 1, 0, 0, 0, 100, 0, 200, 0,
             81, 141, 155, 59, 0, 0, 0, 0, 1, 0, 0, 0, 0, 0, 0, 0, 0, 24, 0, 8])"
  by (simp add: generateGame_def game_options_example createQuadTree_example
      example_snapshot_bytes)

lemma parse_record_A:
  "parse_marker (0, 0, record_A) =
     Inr \<lparr>serverX = 0, serverY = 0, tribeOrOwnerID = 1000050001,
          relX = 100 / 65535, relY = 200 / 65535, markerType = 0,
          UnusedExtra1 = 0, UnusedExtra2 = 0, UnusedExtra = 0\<rparr>"
  by (simp add: parse_marker_def record_A_def Uint64_def Uint16_def Let_def)

lemma tile_cycle_first_round:
  "\<exists>circle. tile_cycle example_cfg query_all (store [record_A]) \<lparr>previousCrc = 1, effects = []\<rparr>
     = Inr \<lparr>previousCrc = 2674646733,
            effects = [TileWritten \<lparr>image_file = TilePng 0 0 0, image_pixels = 256,
                                    image_circles = [circle]\<rparr>]\<rparr>"
proof -
  have fetch: "fetchClaimMarkers example_cfg (store [record_A]) =
      Inr ([\<lparr>serverX = 0, serverY = 0, tribeOrOwnerID = 1000050001,
          relX = 100 / 65535, relY = 200 / 65535, markerType = 0,
          UnusedExtra1 = 0, UnusedExtra2 = 0, UnusedExtra = 0\<rparr>], 2674646733)"
    using fingerprint_store_A
    by (simp add: fingerprint_def fetchClaimMarkers_def raw_records_store parse_record_A)
  show ?thesis
    unfolding tile_cycle_def fetch
    by (simp add: generateTiles_def createQuadTree_def virtualPixelsPerServer_def go_div_def
        go_mul_def go_add_def go_sub_def go_shl1_def uint_pred_def wrap_int_def example_cfg_def
        tiles_options_def tile_options_def Rect_def Let_def generateImage_def query_all_def
        processed_def outside_gutter_def clip_tX_def clip_tY_def render_marker_def
        virtualToActual_def)
qed

end
